theory Spec2Isabelle
  imports Complex_Main "HOL-Library.Product_Lexorder" "HOL-Library.Multiset"
begin

text \<open>
  A shallow embedding of the link tracker: the tracking library (geolocation of an IP,
  the client's address, the referer), the persistence layer over the tables of links and
  clicks, and the handlers of the tracking, creation and deletion endpoints. The
  definitions come first, in the order of the source; the properties follow.
\<close>

section \<open>Values of the platform\<close>

text \<open>
  The tracking library reads the payload of two lookup services. TypeScript declares the
  payload \<^verbatim>\<open>any\<close>, so the model keeps a JavaScript value as it is at run time:
  what \<^verbatim>\<open>response.json()\<close> can return, and \<^verbatim>\<open>undefined\<close> for a
  property that is not there. A number is a double, held by its value.
\<close>

datatype number = Finite rat | PosInfinity | NegInfinity | NaN

datatype jsval =
    Undefined
  | Null
  | Bool bool
  | Num number
  | Str string
  | Arr "jsval list"
  | Obj "(string \<times> jsval) list"

text \<open>ToBoolean: what \<^verbatim>\<open>if (v)\<close>, \<^verbatim>\<open>!v\<close> and \<^verbatim>\<open>v || w\<close> test.\<close>

fun truthy :: "jsval \<Rightarrow> bool" where
  "truthy Undefined = False"
| "truthy Null = False"
| "truthy (Bool b) = b"
| "truthy (Num n) = (n \<noteq> Finite 0 \<and> n \<noteq> NaN)"
| "truthy (Str s) = (s \<noteq> [])"
| "truthy (Arr xs) = True"
| "truthy (Obj kvs) = True"

text \<open>\<^verbatim>\<open>v || null\<close>.\<close>

definition or_null :: "jsval \<Rightarrow> jsval" where
  "or_null v = (if truthy v then v else Null)"

datatype exn = TypeError | RangeError | Error | SqliteError

text \<open>
  \<^verbatim>\<open>data.key\<close>: a TypeError on \<^verbatim>\<open>null\<close> and \<^verbatim>\<open>undefined\<close>, the
  property of an object (each key once, as the JSON parser leaves it), and
  \<^verbatim>\<open>undefined\<close> on every other value, none of which has a property of the names
  read here.
\<close>

fun get_prop :: "jsval \<Rightarrow> string \<Rightarrow> exn + jsval" where
  "get_prop Undefined k = Inl TypeError"
| "get_prop Null k = Inl TypeError"
| "get_prop (Obj kvs) k = Inr (case map_of kvs k of None \<Rightarrow> Undefined | Some v \<Rightarrow> v)"
| "get_prop v k = Inr Undefined"

text \<open>The same read where the source has already read a property of \<open>data\<close>.\<close>

definition member :: "jsval \<Rightarrow> string \<Rightarrow> jsval" where
  "member d k = (case get_prop d k of Inl e \<Rightarrow> Undefined | Inr v \<Rightarrow> v)"

text \<open>
  \<^verbatim>\<open>fetch\<close>: the call throws, or there is a response with its \<^verbatim>\<open>ok\<close> flag and
  the outcome of \<^verbatim>\<open>response.json()\<close> (\<open>None\<close> when the body is not JSON and the
  call throws).
\<close>

datatype fetch_result = NetworkError | Response bool "jsval option"

section \<open>The tracking library\<close>

record LocationData =
  country :: jsval
  city :: jsval
  region :: jsval
  latitude :: jsval
  longitude :: jsval

definition local_location :: LocationData where
  "local_location = \<lparr>country = Str ''Local'', city = Str ''Local'', region = Str ''Local'',
     latitude = Null, longitude = Null\<rparr>"

definition unknown_location :: LocationData where
  "unknown_location = \<lparr>country = Str ''Unknown'', city = Str ''Unknown'',
     region = Str ''Unknown'', latitude = Null, longitude = Null\<rparr>"

definition startsWith :: "string \<Rightarrow> string \<Rightarrow> bool" where
  "startsWith s p = (take (length p) s = p)"

definition is_local_ip :: "string \<Rightarrow> bool" where
  "is_local_ip ip = (ip = [] \<or> ip = ''127.0.0.1'' \<or> ip = ''::1'' \<or> startsWith ip ''192.168.''
     \<or> startsWith ip ''10.'' \<or> startsWith ip ''172.'')"

definition primary_url :: "string \<Rightarrow> string" where
  "primary_url ip = ''https://ipapi.co/'' @ ip @ ''/json/''"

definition secondary_url :: "string \<Rightarrow> string" where
  "secondary_url ip =
     ''http://ip-api.com/json/'' @ ip @ ''?fields=status,country,regionName,city,lat,lon''"

text \<open>How a \<^verbatim>\<open>try\<close> block ends: at a \<^verbatim>\<open>return\<close>, in its \<^verbatim>\<open>catch\<close>, or at its end.\<close>

datatype 'a attempt = Returned 'a | Caught exn | FellThrough

definition primary_location :: "(jsval \<Rightarrow> number) \<Rightarrow> jsval \<Rightarrow> LocationData" where
  "primary_location parseFloat d =
     \<lparr>country = or_null (member d ''country_name''),
      city = or_null (member d ''city''),
      region = or_null (member d ''region''),
      latitude = (if truthy (member d ''latitude'')
                  then Num (parseFloat (member d ''latitude'')) else Null),
      longitude = (if truthy (member d ''longitude'')
                   then Num (parseFloat (member d ''longitude'')) else Null)\<rparr>"

definition primary_attempt ::
  "(string \<Rightarrow> fetch_result) \<Rightarrow> (jsval \<Rightarrow> number) \<Rightarrow> string \<Rightarrow> LocationData attempt" where
  "primary_attempt fetch parseFloat ip =
     (case fetch (primary_url ip) of
        NetworkError \<Rightarrow> Caught Error
      | Response ok body \<Rightarrow>
          if ok then
            (case body of
               None \<Rightarrow> Caught Error
             | Some d \<Rightarrow>
                 (case get_prop d ''error'' of
                    Inl e \<Rightarrow> Caught e
                  | Inr err \<Rightarrow>
                      if truthy err then Caught Error
                      else Returned (primary_location parseFloat d)))
          else FellThrough)"

definition secondary_location :: "jsval \<Rightarrow> LocationData" where
  "secondary_location d =
     \<lparr>country = or_null (member d ''country''),
      city = or_null (member d ''city''),
      region = or_null (member d ''regionName''),
      latitude = or_null (member d ''lat''),
      longitude = or_null (member d ''lon'')\<rparr>"

definition secondary_attempt :: "(string \<Rightarrow> fetch_result) \<Rightarrow> string \<Rightarrow> LocationData attempt" where
  "secondary_attempt fetch ip =
     (case fetch (secondary_url ip) of
        NetworkError \<Rightarrow> Caught Error
      | Response ok body \<Rightarrow>
          if ok then
            (case body of
               None \<Rightarrow> Caught Error
             | Some d \<Rightarrow>
                 (case get_prop d ''status'' of
                    Inl e \<Rightarrow> Caught e
                  | Inr st \<Rightarrow>
                      if st = Str ''success'' then Returned (secondary_location d)
                      else FellThrough))
          else FellThrough)"

text \<open>
  The resolver returns the location and, beside it, the URLs it fetched, in order: the
  second component is the outbound traffic of the call.
\<close>

definition getLocationFromIP ::
  "(string \<Rightarrow> fetch_result) \<Rightarrow> (jsval \<Rightarrow> number) \<Rightarrow> string \<Rightarrow> LocationData \<times> string list" where
  "getLocationFromIP fetch parseFloat ip =
     (if is_local_ip ip then (local_location, [])
      else
        (case primary_attempt fetch parseFloat ip of
           Returned loc \<Rightarrow> (loc, [primary_url ip])
         | _ \<Rightarrow>
            (case secondary_attempt fetch ip of
               Returned loc \<Rightarrow> (loc, [primary_url ip, secondary_url ip])
             | _ \<Rightarrow> (unknown_location, [primary_url ip, secondary_url ip]))))"

text \<open>
  The words of the specification for a lookup that failed. The primary one: the response
  is not OK, or something was thrown (by \<^verbatim>\<open>fetch\<close>, by \<^verbatim>\<open>json()\<close>, or by reading a
  property of \<^verbatim>\<open>null\<close>), or the payload reports an error. The secondary one: not OK,
  thrown, or a status other than \<open>success\<close>.
\<close>

definition primary_failed :: "fetch_result \<Rightarrow> bool" where
  "primary_failed r =
     (case r of
        NetworkError \<Rightarrow> True
      | Response is_ok body \<Rightarrow>
          \<not> is_ok \<or>
          (case body of
             None \<Rightarrow> True
           | Some d \<Rightarrow> d = Null \<or> d = Undefined \<or> truthy (member d ''error'')))"

definition secondary_failed :: "fetch_result \<Rightarrow> bool" where
  "secondary_failed r =
     (case r of
        NetworkError \<Rightarrow> True
      | Response is_ok body \<Rightarrow>
          \<not> is_ok \<or>
          (case body of
             None \<Rightarrow> True
           | Some d \<Rightarrow> d = Null \<or> d = Undefined \<or> member d ''status'' \<noteq> Str ''success''))"

subsection \<open>Regular expressions\<close>

text \<open>
  The two patterns of \<^verbatim>\<open>isValidIP\<close> use character classes, concatenation and bounded
  repetition, between \<^verbatim>\<open>^\<close> and \<^verbatim>\<open>$\<close>. For such a pattern
  \<^verbatim>\<open>regex.test(s)\<close> says whether the whole of \<open>s\<close> is a word of the pattern; the
  model decides it with derivatives.
\<close>

datatype regex = Never | Empty | OneOf "char list" | Seq regex regex | Alt regex regex

text \<open>\<^verbatim>\<open>r{n}\<close>, \<^verbatim>\<open>r{0,n}\<close> and \<^verbatim>\<open>r{m,n}\<close>.\<close>

fun rep :: "nat \<Rightarrow> regex \<Rightarrow> regex" where
  "rep 0 r = Empty"
| "rep (Suc n) r = Seq r (rep n r)"

fun rep_upto :: "nat \<Rightarrow> regex \<Rightarrow> regex" where
  "rep_upto 0 r = Empty"
| "rep_upto (Suc n) r = Alt Empty (Seq r (rep_upto n r))"

definition rep_between :: "nat \<Rightarrow> nat \<Rightarrow> regex \<Rightarrow> regex" where
  "rep_between m n r = Seq (rep m r) (rep_upto (n - m) r)"

fun nullable :: "regex \<Rightarrow> bool" where
  "nullable Never = False"
| "nullable Empty = True"
| "nullable (OneOf cs) = False"
| "nullable (Seq r s) = (nullable r \<and> nullable s)"
| "nullable (Alt r s) = (nullable r \<or> nullable s)"

fun deriv :: "char \<Rightarrow> regex \<Rightarrow> regex" where
  "deriv c Never = Never"
| "deriv c Empty = Never"
| "deriv c (OneOf cs) = (if c \<in> set cs then Empty else Never)"
| "deriv c (Seq r s) =
     (if nullable r then Alt (Seq (deriv c r) s) (deriv c s) else Seq (deriv c r) s)"
| "deriv c (Alt r s) = Alt (deriv c r) (deriv c s)"

definition test :: "regex \<Rightarrow> string \<Rightarrow> bool" where
  "test r s = nullable (foldl (\<lambda>r' c. deriv c r') r s)"

text \<open>The words of a pattern.\<close>

fun lang :: "regex \<Rightarrow> string set" where
  "lang Never = {}"
| "lang Empty = {[]}"
| "lang (OneOf cs) = {[c] | c. c \<in> set cs}"
| "lang (Seq r s) = {u @ v | u v. u \<in> lang r \<and> v \<in> lang s}"
| "lang (Alt r s) = lang r \<union> lang s"

subsection \<open>The client's address\<close>

definition digit :: regex where
  "digit = OneOf ''0123456789''"

definition hexdigit :: regex where
  "hexdigit = OneOf ''0123456789abcdefABCDEF''"

definition ipv4Regex :: regex where
  "ipv4Regex = Seq (rep 3 (Seq (rep_between 1 3 digit) (OneOf ''.''))) (rep_between 1 3 digit)"

definition ipv6Regex :: regex where
  "ipv6Regex = Seq (rep 7 (Seq (rep_between 1 4 hexdigit) (OneOf '':''))) (rep_between 1 4 hexdigit)"

definition isValidIP :: "string \<Rightarrow> bool" where
  "isValidIP ip = (test ipv4Regex ip \<or> test ipv6Regex ip)"

text \<open>
  A request, as far as the handlers read it: its headers by lower-case name (a header
  value is a byte string, one \<open>char\<close> per code unit), the origin of its URL, and its
  body as \<^verbatim>\<open>request.json()\<close> gives it (\<open>None\<close> when that call throws).
\<close>

record request =
  headers :: "string \<Rightarrow> string option"
  origin :: string
  body :: "jsval option"

definition possibleHeaders :: "string list" where
  "possibleHeaders = [''x-forwarded-for'', ''x-real-ip'', ''x-client-ip'', ''cf-connecting-ip'',
     ''true-client-ip'', ''x-cluster-client-ip'']"

text \<open>\<^verbatim>\<open>value.split(',')[0]\<close>: what stands before the first comma.\<close>

definition first_token :: "string \<Rightarrow> string" where
  "first_token v = takeWhile (\<lambda>c. c \<noteq> CHR '','') v"

text \<open>
  \<^verbatim>\<open>trim()\<close> removes white space and line terminators at both ends; among the code
  units of a header value these are tab, LF, VT, FF, CR, space and the no-break space.
\<close>

definition is_space :: "char \<Rightarrow> bool" where
  "is_space c = (c \<in> set [CHR 0x09, CHR 0x0A, CHR 0x0B, CHR 0x0C, CHR 0x0D, CHR 0x20, CHR 0xA0])"

definition trim :: "string \<Rightarrow> string" where
  "trim s = rev (dropWhile is_space (rev (dropWhile is_space s)))"

text \<open>The loop over \<open>possibleHeaders\<close>.\<close>

fun scan_headers :: "(string \<Rightarrow> string option) \<Rightarrow> string list \<Rightarrow> string option" where
  "scan_headers hs [] = None"
| "scan_headers hs (header # rest) =
     (case hs header of
        None \<Rightarrow> scan_headers hs rest
      | Some v \<Rightarrow>
          if v \<noteq> [] then
            (let ip = trim (first_token v)
             in if isValidIP ip then Some ip else scan_headers hs rest)
          else scan_headers hs rest)"

definition getClientIP :: "request \<Rightarrow> string option" where
  "getClientIP req = scan_headers (headers req) possibleHeaders"

text \<open>
  The words of the specification for the two shapes: four groups of one to three decimal
  digits joined by dots; eight groups of one to four hexadecimal digits joined by colons.
\<close>

fun join :: "char \<Rightarrow> string list \<Rightarrow> string" where
  "join sep [] = []"
| "join sep [g] = g"
| "join sep (g # gs) = g @ sep # join sep gs"

definition is_group :: "char list \<Rightarrow> nat \<Rightarrow> nat \<Rightarrow> string \<Rightarrow> bool" where
  "is_group cs lo hi g = (lo \<le> length g \<and> length g \<le> hi \<and> set g \<subseteq> set cs)"

definition ipv4_shape :: "string \<Rightarrow> bool" where
  "ipv4_shape s = (\<exists>gs. length gs = 4 \<and> list_all (is_group ''0123456789'' 1 3) gs \<and>
     s = join CHR ''.'' gs)"

definition ipv6_shape :: "string \<Rightarrow> bool" where
  "ipv6_shape s = (\<exists>gs. length gs = 8 \<and> list_all (is_group ''0123456789abcdefABCDEF'' 1 4) gs \<and>
     s = join CHR '':'' gs)"

subsection \<open>The referer\<close>

text \<open>
  The platform's \<^verbatim>\<open>URL\<close> class, after the URL Standard: a parsed URL is a record of
  components (the host already serialised), \<^verbatim>\<open>toString()\<close> is the URL serialiser,
  and assigning the empty string to \<^verbatim>\<open>search\<close> sets the query to null and strips
  the trailing spaces of an opaque path that no query or fragment follows. The parser
  itself, \<^verbatim>\<open>new URL(s)\<close>, is a parameter of the model: \<open>None\<close> where it throws.
\<close>

datatype url_path = Opaque string | Segments "string list"

record url =
  scheme :: string
  username :: string
  password :: string
  host :: "string option"
  port :: "nat option"
  path :: url_path
  query :: "string option"
  fragment :: "string option"

fun decimal :: "nat \<Rightarrow> string" where
  "decimal n =
     (if n < 10 then [char_of (48 + n)] else decimal (n div 10) @ [char_of (48 + n mod 10)])"

definition serialize_path :: "url_path \<Rightarrow> string" where
  "serialize_path p =
     (case p of Opaque s \<Rightarrow> s | Segments segs \<Rightarrow> concat (map (\<lambda>s. ''/'' @ s) segs))"

definition href :: "url \<Rightarrow> string" where
  "href u =
     scheme u @ '':'' @
     (case host u of
        Some h \<Rightarrow>
          ''//'' @
          (if username u \<noteq> [] \<or> password u \<noteq> []
           then username u @ (if password u \<noteq> [] then '':'' @ password u else []) @ ''@''
           else []) @
          h @
          (case port u of None \<Rightarrow> [] | Some p \<Rightarrow> '':'' @ decimal p)
      | None \<Rightarrow>
          (case path u of
             Segments (s1 # s2 # rest) \<Rightarrow> if s1 = [] then ''/.'' else []
           | _ \<Rightarrow> [])) @
     serialize_path (path u) @
     (case query u of None \<Rightarrow> [] | Some q \<Rightarrow> ''?'' @ q) @
     (case fragment u of None \<Rightarrow> [] | Some f \<Rightarrow> ''#'' @ f)"

definition set_search_empty :: "url \<Rightarrow> url" where
  "set_search_empty u =
     (case path u of
        Opaque s \<Rightarrow>
          if fragment u = None
          then u\<lparr>query := None, path := Opaque (rev (dropWhile (\<lambda>c. c = CHR '' '') (rev s)))\<rparr>
          else u\<lparr>query := None\<rparr>
      | Segments segs \<Rightarrow> u\<lparr>query := None\<rparr>)"

definition sanitizeReferer :: "(string \<Rightarrow> url option) \<Rightarrow> string option \<Rightarrow> string option" where
  "sanitizeReferer parseURL referer =
     (case referer of
        None \<Rightarrow> None
      | Some r \<Rightarrow>
          if r = [] then None
          else
            (case parseURL r of
               None \<Rightarrow> None
             | Some u \<Rightarrow> Some (href (set_search_empty u))))"

section \<open>The persistence layer\<close>

text \<open>
  The two tables, in row order. A timestamp is a number of seconds (the text that SQLite
  stores, \<open>YYYY-MM-DD HH:MM:SS\<close>, compares as the instant does). The location columns of
  a click hold what was bound to them.
\<close>

record Link =
  l_id :: string
  l_name :: string
  original_url :: string
  short_code :: string
  created_at :: int
  click_count :: int

record Click =
  c_id :: nat
  link_id :: string
  ip_address :: "string option"
  c_country :: jsval
  c_city :: jsval
  c_region :: jsval
  c_latitude :: jsval
  c_longitude :: jsval
  user_agent :: "string option"
  referer :: "string option"
  clicked_at :: int

text \<open>
  The database as a statement finds it: the tables, the counter behind
  \<^verbatim>\<open>AUTOINCREMENT\<close>, the clock that \<^verbatim>\<open>datetime('now')\<close> reads, and the faults lying
  ahead. A statement of the driver throws on a failure of the engine (a lock, a full
  disk, a parameter it cannot bind, a foreign key that is enforced and violated); which
  executions fail is not decided by the tables, so the model is told: each executed
  statement takes the head of \<open>faults\<close> and throws when it is \<open>True\<close>, and an empty list
  means that nothing fails any more.
\<close>

record store =
  links :: "Link list"
  clicks :: "Click list"
  click_seq :: nat
  now :: int
  faults :: "bool list"

type_synonym 'a db_op = "store \<Rightarrow> (exn + 'a) \<times> store"

definition stmt :: "'a db_op \<Rightarrow> 'a db_op" where
  "stmt run s =
     (case faults s of
        [] \<Rightarrow> run s
      | f # fs \<Rightarrow> if f then (Inl SqliteError, s\<lparr>faults := fs\<rparr>) else run (s\<lparr>faults := fs\<rparr>))"

text \<open>A statement that only reads.\<close>

definition select :: "(store \<Rightarrow> 'a) \<Rightarrow> 'a db_op" where
  "select q = stmt (\<lambda>s. (Inr (q s), s))"

text \<open>One call after another: an exception of the first ends both.\<close>

definition andThen :: "'a db_op \<Rightarrow> ('a \<Rightarrow> 'b db_op) \<Rightarrow> 'b db_op" where
  "andThen m f s = (case m s of (Inl e, s') \<Rightarrow> (Inl e, s') | (Inr a, s') \<Rightarrow> f a s')"

text \<open>
  \<^verbatim>\<open>nanoid(size)\<close>: \<open>size\<close> symbols of the generator's random stream. \<open>createLink\<close>
  draws 21 symbols for the identifier and then 8 for the short code.
\<close>

definition nanoid :: "(nat \<Rightarrow> char) \<Rightarrow> nat \<Rightarrow> nat \<Rightarrow> string" where
  "nanoid random off n = map random [off..<off + n]"

text \<open>
  The \<^verbatim>\<open>INSERT\<close> of \<open>createLink\<close> fails on a row whose \<open>id\<close> (the primary key) or
  \<open>short_code\<close> (declared \<^verbatim>\<open>UNIQUE\<close>) is already in the table.
\<close>

definition createLink :: "string \<Rightarrow> string \<Rightarrow> (nat \<Rightarrow> char) \<Rightarrow> Link option db_op" where
  "createLink name originalUrl random =
     (let ident = nanoid random 0 21; shortCode = nanoid random 21 8
      in andThen
           (stmt (\<lambda>s.
              if \<exists>l \<in> set (links s). l_id l = ident \<or> short_code l = shortCode
              then (Inl SqliteError, s)
              else (Inr (),
                    s\<lparr>links := links s @
                       [\<lparr>l_id = ident, l_name = name, original_url = originalUrl,
                         short_code = shortCode, created_at = now s, click_count = 0\<rparr>]\<rparr>)))
           (\<lambda>_. select (\<lambda>s. find (\<lambda>l. l_id l = ident) (links s))))"

definition getLinkById :: "string \<Rightarrow> Link option db_op" where
  "getLinkById ident = select (\<lambda>s. find (\<lambda>l. l_id l = ident) (links s))"

definition getLinkByShortCode :: "string \<Rightarrow> Link option db_op" where
  "getLinkByShortCode shortCode = select (\<lambda>s. find (\<lambda>l. short_code l = shortCode) (links s))"

definition updateLinkClickCount :: "string \<Rightarrow> unit db_op" where
  "updateLinkClickCount linkId =
     stmt (\<lambda>s. (Inr (),
       s\<lparr>links := map (\<lambda>l. if l_id l = linkId then l\<lparr>click_count := click_count l + 1\<rparr> else l)
                      (links s)\<rparr>))"

definition deleteLink :: "string \<Rightarrow> bool db_op" where
  "deleteLink ident =
     andThen
       (stmt (\<lambda>s. (Inr (), s\<lparr>clicks := filter (\<lambda>c. link_id c \<noteq> ident) (clicks s)\<rparr>)))
       (\<lambda>_. stmt (\<lambda>s.
          (Inr (0 < length (filter (\<lambda>l. l_id l = ident) (links s))),
           s\<lparr>links := filter (\<lambda>l. l_id l \<noteq> ident) (links s)\<rparr>)))"

definition recordClick ::
  "string \<Rightarrow> string option \<Rightarrow> LocationData \<Rightarrow> string option \<Rightarrow> string option \<Rightarrow> unit db_op" where
  "recordClick linkId ipAddress locationData userAgent ref =
     andThen
       (stmt (\<lambda>s. (Inr (),
          s\<lparr>clicks := clicks s @
               [\<lparr>c_id = Suc (click_seq s), link_id = linkId, ip_address = ipAddress,
                 c_country = country locationData, c_city = city locationData,
                 c_region = region locationData, c_latitude = latitude locationData,
                 c_longitude = longitude locationData, user_agent = userAgent,
                 referer = ref, clicked_at = now s\<rparr>],
            click_seq := Suc (click_seq s)\<rparr>)))
       (\<lambda>_. updateLinkClickCount linkId)"

text \<open>
  \<^verbatim>\<open>ORDER BY clicked_at DESC\<close>. SQL leaves the order of rows with equal keys open; the
  model keeps them in row order, and no property below depends on that.
\<close>

definition newest_first :: "('a \<Rightarrow> int) \<Rightarrow> 'a list \<Rightarrow> 'a list" where
  "newest_first stamp rows = sort_key (\<lambda>r. - stamp r) rows"

definition getClicksByLinkId :: "string \<Rightarrow> Click list db_op" where
  "getClicksByLinkId linkId =
     select (\<lambda>s. newest_first clicked_at (filter (\<lambda>c. link_id c = linkId) (clicks s)))"

text \<open>\<^verbatim>\<open>GROUP BY key\<close> with \<^verbatim>\<open>COUNT(*)\<close>: one row for each key that occurs.\<close>

definition group_rows :: "('a \<Rightarrow> 'k) \<Rightarrow> 'a list \<Rightarrow> ('k \<times> 'a list) list" where
  "group_rows key rows = map (\<lambda>k. (k, filter (\<lambda>r. key r = k) rows)) (remdups (map key rows))"

definition group_count :: "('a \<Rightarrow> 'k) \<Rightarrow> 'a list \<Rightarrow> ('k \<times> nat) list" where
  "group_count key rows = map (\<lambda>(k, g). (k, length g)) (group_rows key rows)"

text \<open>\<^verbatim>\<open>ORDER BY count DESC\<close>.\<close>

definition most_first :: "('k \<times> nat) list \<Rightarrow> ('k \<times> nat) list" where
  "most_first rows = sort_key (\<lambda>(k, n). - int n) rows"

definition days :: "int \<Rightarrow> int" where
  "days n = n * 86400"

text \<open>\<^verbatim>\<open>DATE(clicked_at)\<close>: the day an instant lies in.\<close>

definition date_of :: "int \<Rightarrow> int" where
  "date_of t = t div 86400"

record link_analytics =
  link_totalClicks :: nat
  link_clicks :: "Click list"
  countryStats :: "(jsval \<times> nat) list"
  cityStats :: "((jsval \<times> jsval) \<times> nat) list"
  dailyStats :: "(int \<times> nat) list"

definition getLinkAnalytics :: "string \<Rightarrow> link_analytics db_op" where
  "getLinkAnalytics linkId =
     andThen (getClicksByLinkId linkId) (\<lambda>cs.
     andThen (select (\<lambda>s. most_first (group_count c_country
                (filter (\<lambda>c. link_id c = linkId \<and> c_country c \<noteq> Null) (clicks s))))) (\<lambda>byCountry.
     andThen (select (\<lambda>s. take 10 (most_first (group_count (\<lambda>c. (c_city c, c_country c))
                (filter (\<lambda>c. link_id c = linkId \<and> c_city c \<noteq> Null) (clicks s)))))) (\<lambda>byCity.
     andThen (select (\<lambda>s. sort_key fst (group_count (\<lambda>c. date_of (clicked_at c))
                (filter (\<lambda>c. link_id c = linkId \<and> now s - days 30 \<le> clicked_at c) (clicks s))))) (\<lambda>daily.
     (\<lambda>s. (Inr \<lparr>link_totalClicks = length cs, link_clicks = cs, countryStats = byCountry,
                 cityStats = byCity, dailyStats = daily\<rparr>, s))))))"

text \<open>
  The two joins of the global summary. The inner join pairs a click with the link it
  names. The left join keeps every link: with each of its clicks of the last seven days,
  or once with no click (\<open>None\<close>, the row of \<^verbatim>\<open>NULL\<close>s) when it has none.
\<close>

definition inner_join :: "Click list \<Rightarrow> Link list \<Rightarrow> (Click \<times> Link) list" where
  "inner_join cs ls = concat (map (\<lambda>c. map (\<lambda>l. (c, l)) (filter (\<lambda>l. link_id c = l_id l) ls)) cs)"

definition left_join :: "Link list \<Rightarrow> (Link \<Rightarrow> Click \<Rightarrow> bool) \<Rightarrow> Click list \<Rightarrow> (Link \<times> Click option) list" where
  "left_join ls on cs =
     concat (map (\<lambda>l. case filter (on l) cs of
                         [] \<Rightarrow> [(l, None)]
                       | c # rest \<Rightarrow> map (\<lambda>c'. (l, Some c')) (c # rest)) ls)"

text \<open>
  \<^verbatim>\<open>SELECT l.*, COUNT(c.id) ... GROUP BY l.id\<close>: of each group the link of its first
  row, and the number of its rows that have a click.
\<close>

definition count_recent :: "(Link \<times> Click option) list \<Rightarrow> (Link \<times> nat) list" where
  "count_recent joined =
     List.map_filter
       (\<lambda>(k, g). case g of [] \<Rightarrow> None
                  | r # rest \<Rightarrow> Some (fst r, length (filter (\<lambda>r'. snd r' \<noteq> None) g)))
       (group_rows (\<lambda>r. l_id (fst r)) joined)"

text \<open>\<^verbatim>\<open>ORDER BY recent_clicks DESC, l.click_count DESC\<close>.\<close>

definition top_order :: "(Link \<times> nat) list \<Rightarrow> (Link \<times> nat) list" where
  "top_order rows = sort_key (\<lambda>(l, n). (- int n, - click_count l)) rows"

record global_analytics =
  totalLinks :: nat
  totalClicks :: nat
  recentClicks :: "(Click \<times> string \<times> string) list"
  topLinks :: "(Link \<times> nat) list"

definition getGlobalAnalytics :: "global_analytics db_op" where
  "getGlobalAnalytics =
     andThen (select (\<lambda>s. length (links s))) (\<lambda>nLinks.
     andThen (select (\<lambda>s. length (clicks s))) (\<lambda>nClicks.
     andThen (select (\<lambda>s. map (\<lambda>(c, l). (c, l_name l, short_code l))
                (take 10 (newest_first (\<lambda>(c, l). clicked_at c) (inner_join (clicks s) (links s)))))) (\<lambda>recent.
     andThen (select (\<lambda>s. take 5 (top_order (count_recent
                (left_join (links s)
                   (\<lambda>l c. l_id l = link_id c \<and> now s - days 7 \<le> clicked_at c) (clicks s)))))) (\<lambda>top.
     (\<lambda>s. (Inr \<lparr>totalLinks = nLinks, totalClicks = nClicks, recentClicks = recent,
                 topLinks = top\<rparr>, s))))))"

section \<open>The route handlers\<close>

text \<open>
  What a handler needs from outside the repository: the URL parser, \<^verbatim>\<open>parseFloat\<close>, and
  the answers of the network.
\<close>

record env =
  env_parseURL :: "string \<Rightarrow> url option"
  env_parseFloat :: "jsval \<Rightarrow> number"
  env_fetch :: "string \<Rightarrow> fetch_result"

text \<open>
  An issue of the schema names the field it is about. The schema's own checks carry the
  message the source gives them.
\<close>

datatype issue = invalid_type "string list" | check_failed "string list" string

text \<open>
  The bodies the handlers send: \<^verbatim>\<open>{error}\<close>, \<^verbatim>\<open>{success: false, error}\<close>,
  \<^verbatim>\<open>{success: false, error: 'Invalid input', details}\<close>,
  \<^verbatim>\<open>{success: true, data, trackingUrl}\<close> and \<^verbatim>\<open>{success: true}\<close>.
\<close>

datatype payload =
    ErrorOnly string
  | Failure string
  | Invalid "issue list"
  | Created Link string
  | Success

datatype response = Redirect string nat | Json nat payload

text \<open>
  \<^verbatim>\<open>NextResponse.redirect(url, status)\<close> throws on a status that is no redirect and on
  a target that does not parse; the \<^verbatim>\<open>Location\<close> it sends is the serialisation of
  the target.
\<close>

definition redirect :: "(string \<Rightarrow> url option) \<Rightarrow> string \<Rightarrow> nat \<Rightarrow> exn + response" where
  "redirect parseURL target status =
     (if status \<notin> set [301, 302, 303, 307, 308] then Inl RangeError
      else case parseURL target of None \<Rightarrow> Inl Error | Some u \<Rightarrow> Inr (Redirect target status))"

subsection \<open>\<open>GET /track/{shortCode}\<close>\<close>

text \<open>The \<^verbatim>\<open>try\<close> block of the handler: \<open>Inl\<close> is the exception that leaves it.\<close>

definition track_try :: "env \<Rightarrow> request \<Rightarrow> string \<Rightarrow> store \<Rightarrow> (exn + response) \<times> store" where
  "track_try env req shortCode s =
     (case getLinkByShortCode shortCode s of
        (Inl e, s1) \<Rightarrow> (Inl e, s1)
      | (Inr None, s1) \<Rightarrow> (Inr (Json 404 (ErrorOnly ''Link not found'')), s1)
      | (Inr (Some link), s1) \<Rightarrow>
          (let ip = (case getClientIP req of
                       None \<Rightarrow> ''127.0.0.1''
                     | Some a \<Rightarrow> if a = [] then ''127.0.0.1'' else a);
               userAgent = headers req ''user-agent'';
               ref = sanitizeReferer (env_parseURL env) (headers req ''referer'');
               locationData = fst (getLocationFromIP (env_fetch env) (env_parseFloat env) ip)
           in case recordClick (l_id link) (Some ip) locationData userAgent ref s1 of
                (Inl e, s2) \<Rightarrow> (Inl e, s2)
              | (Inr u, s2) \<Rightarrow>
                  (case redirect (env_parseURL env) (original_url link) 302 of
                     Inl e \<Rightarrow> (Inl e, s2)
                   | Inr resp \<Rightarrow> (Inr resp, s2))))"

text \<open>The \<^verbatim>\<open>catch\<close> block: a second lookup and a redirect, and the 500 after them.\<close>

definition track_catch :: "env \<Rightarrow> string \<Rightarrow> store \<Rightarrow> response \<times> store" where
  "track_catch env shortCode s =
     (case getLinkByShortCode shortCode s of
        (Inr (Some link), s1) \<Rightarrow>
          (case redirect (env_parseURL env) (original_url link) 302 of
             Inr resp \<Rightarrow> (resp, s1)
           | Inl e \<Rightarrow> (Json 500 (ErrorOnly ''Tracking failed''), s1))
      | (_, s1) \<Rightarrow> (Json 500 (ErrorOnly ''Tracking failed''), s1))"

definition track_GET :: "env \<Rightarrow> request \<Rightarrow> string \<Rightarrow> store \<Rightarrow> response \<times> store" where
  "track_GET env req shortCode s =
     (case track_try env req shortCode s of
        (Inr resp, s1) \<Rightarrow> (resp, s1)
      | (Inl e, s1) \<Rightarrow> track_catch env shortCode s1)"

subsection \<open>\<open>POST /api/links\<close>\<close>

text \<open>
  \<^verbatim>\<open>createLinkSchema.parse(body)\<close>: the issues of both fields, or the validated data.
  The length of a string is its number of code units; the \<^verbatim>\<open>url()\<close> check constructs
  a \<^verbatim>\<open>URL\<close> from the string.
\<close>

definition check_name :: "jsval \<Rightarrow> issue list" where
  "check_name v =
     (case v of
        Str n \<Rightarrow>
          (if length n < 1 then [check_failed [''name''] ''Name is required''] else []) @
          (if 100 < length n then [check_failed [''name''] ''Name too long''] else [])
      | _ \<Rightarrow> [invalid_type [''name'']])"

definition check_originalUrl :: "(string \<Rightarrow> url option) \<Rightarrow> jsval \<Rightarrow> issue list" where
  "check_originalUrl parseURL v =
     (case v of
        Str u \<Rightarrow>
          (if parseURL u = None then [check_failed [''originalUrl''] ''Invalid URL format'']
           else [])
      | _ \<Rightarrow> [invalid_type [''originalUrl'']])"

definition createLinkSchema :: "(string \<Rightarrow> url option) \<Rightarrow> jsval \<Rightarrow> issue list + (string \<times> string)" where
  "createLinkSchema parseURL b =
     (case b of
        Obj kvs \<Rightarrow>
          (let issues = check_name (member b ''name'') @
                        check_originalUrl parseURL (member b ''originalUrl'')
           in case (issues, member b ''name'', member b ''originalUrl'') of
                ([], Str n, Str u) \<Rightarrow> Inr (n, u)
              | _ \<Rightarrow> Inl issues)
      | _ \<Rightarrow> Inl [invalid_type []])"

definition links_POST :: "env \<Rightarrow> request \<Rightarrow> (nat \<Rightarrow> char) \<Rightarrow> store \<Rightarrow> response \<times> store" where
  "links_POST env req random s =
     (case body req of
        None \<Rightarrow> (Json 500 (Failure ''Failed to create link''), s)
      | Some b \<Rightarrow>
          (case createLinkSchema (env_parseURL env) b of
             Inl issues \<Rightarrow> (Json 400 (Invalid issues), s)
           | Inr (n, u) \<Rightarrow>
               (case createLink n u random s of
                  (Inr (Some link), s1) \<Rightarrow>
                    (Json 201 (Created link (origin req @ ''/track/'' @ short_code link)), s1)
                | (_, s1) \<Rightarrow> (Json 500 (Failure ''Failed to create link''), s1))))"

subsection \<open>\<open>DELETE /api/links\<close>\<close>


section \<open>Vocabulary of the properties\<close>

text \<open>The row that \<open>recordClick\<close> inserts, and the table of links after its update.\<close>

definition click_row ::
  "store \<Rightarrow> string \<Rightarrow> string option \<Rightarrow> LocationData \<Rightarrow> string option \<Rightarrow> string option \<Rightarrow> Click" where
  "click_row s linkId ipAddress locationData userAgent ref =
     \<lparr>c_id = Suc (click_seq s), link_id = linkId, ip_address = ipAddress,
      c_country = country locationData, c_city = city locationData,
      c_region = region locationData, c_latitude = latitude locationData,
      c_longitude = longitude locationData, user_agent = userAgent,
      referer = ref, clicked_at = now s\<rparr>"

definition bump :: "string \<Rightarrow> Link list \<Rightarrow> Link list" where
  "bump linkId ls =
     map (\<lambda>l. if l_id l = linkId then l\<lparr>click_count := click_count l + 1\<rparr> else l) ls"

text \<open>
  The row that \<open>createLink\<close> inserts; the generator's draw is fresh when neither the
  identifier nor the short code it yields is in the table. In the words of the
  specification, a body is valid when it is an object whose \<open>name\<close> is a string of 1 to
  100 characters and whose \<open>originalUrl\<close> is a string that parses as a URL.
\<close>

definition new_link :: "store \<Rightarrow> string \<Rightarrow> string \<Rightarrow> (nat \<Rightarrow> char) \<Rightarrow> Link" where
  "new_link s name originalUrl random =
     \<lparr>l_id = nanoid random 0 21, l_name = name, original_url = originalUrl,
      short_code = nanoid random 21 8, created_at = now s, click_count = 0\<rparr>"

definition fresh :: "store \<Rightarrow> (nat \<Rightarrow> char) \<Rightarrow> bool" where
  "fresh s random =
     (\<forall>l \<in> set (links s). l_id l \<noteq> nanoid random 0 21 \<and> short_code l \<noteq> nanoid random 21 8)"

definition valid_body :: "(string \<Rightarrow> url option) \<Rightarrow> jsval \<Rightarrow> string \<Rightarrow> string \<Rightarrow> bool" where
  "valid_body parseURL b n u = ((\<exists>kvs. b = Obj kvs) \<and> member b ''name'' = Str n \<and>
     1 \<le> length n \<and> length n \<le> 100 \<and> member b ''originalUrl'' = Str u \<and> parseURL u \<noteq> None)"

text \<open>
  The clicks of a link within the trailing seven days, and the order of the top links in
  the words of the specification: more recent clicks first, and among equals the higher
  \<open>click_count\<close> first.
\<close>

definition recent_clicks :: "store \<Rightarrow> Link \<Rightarrow> nat" where
  "recent_clicks s l =
     length (filter (\<lambda>c. l_id l = link_id c \<and> now s - days 7 \<le> clicked_at c) (clicks s))"

definition ranks_before :: "Link \<times> nat \<Rightarrow> Link \<times> nat \<Rightarrow> bool" where
  "ranks_before a b =
     (snd b < snd a \<or> (snd a = snd b \<and> click_count (fst b) \<le> click_count (fst a)))"

text \<open>
  The scenario of the specification: a link named Blog to \<open>https://example.com\<close>, alone
  in the database, a parser that knows that URL, a network that is down, and a visitor
  who sends no header.
\<close>

definition blog :: Link where
  "blog = \<lparr>l_id = ''V1StGXR8_Z5jdHi6B-myT'', l_name = ''Blog'',
            original_url = ''https://example.com'', short_code = ''aB3_x-9Q'',
            created_at = 1000, click_count = 0\<rparr>"

definition blog_store :: store where
  "blog_store = \<lparr>links = [blog], clicks = [], click_seq = 0, now = 2000, faults = []\<rparr>"

definition example_env :: env where
  "example_env =
     \<lparr>env_parseURL = (\<lambda>s. if s = ''https://example.com''
                          then Some \<lparr>scheme = ''https'', username = [], password = [],
                                     host = Some ''example.com'', port = None,
                                     path = Segments [[]], query = None, fragment = None\<rparr>
                          else None),
      env_parseFloat = (\<lambda>v. NaN),
      env_fetch = (\<lambda>u. NetworkError)\<rparr>"

definition visit :: request where
  "visit = \<lparr>headers = (\<lambda>h. None), origin = ''http://localhost:3000'', body = None\<rparr>"

text \<open>The click that this visit leaves.\<close>

definition blog_click :: Click where
  "blog_click = \<lparr>c_id = 1, link_id = ''V1StGXR8_Z5jdHi6B-myT'', ip_address = Some ''127.0.0.1'',
     c_country = Str ''Local'', c_city = Str ''Local'', c_region = Str ''Local'',
     c_latitude = Null, c_longitude = Null, user_agent = None, referer = None,
     clicked_at = 2000\<rparr>"

text \<open>
  The request that creates the link, the database before it, and two draws of the
  generator: the one that gave the link its identifier and short code, and one with
  another identifier and the same short code.
\<close>

definition blog_request :: request where
  "blog_request = \<lparr>headers = (\<lambda>h. None), origin = ''http://localhost:3000'',
     body = Some (Obj [(''name'', Str ''Blog''), (''originalUrl'', Str ''https://example.com'')])\<rparr>"

definition empty_store :: store where
  "empty_store = \<lparr>links = [], clicks = [], click_seq = 0, now = 1000, faults = []\<rparr>"

definition lucky :: "nat \<Rightarrow> char" where
  "lucky i = (if i < 29 then ''V1StGXR8_Z5jdHi6B-myTaB3_x-9Q'' ! i else CHR ''A'')"

definition unlucky :: "nat \<Rightarrow> char" where
  "unlucky i = (if i < 29 then ''Uakgb_J5m9g-0JDMbcJqLaB3_x-9Q'' ! i else CHR ''A'')"

text \<open>
  A later state of the database: an older link with five counted clicks, none of them
  stored, and the Blog link after its one visit.
\<close>

definition docs :: Link where
  "docs = \<lparr>l_id = ''Uakgb_J5m9g-0JDMbcJqL'', l_name = ''Docs'',
            original_url = ''https://example.org/docs'', short_code = ''k7_Zq-2m'',
            created_at = 500, click_count = 5\<rparr>"

definition two_links :: store where
  "two_links = \<lparr>links = [docs, blog\<lparr>click_count := 1\<rparr>], clicks = [blog_click],
     click_seq = 1, now = 2000, faults = []\<rparr>"

section \<open>Properties of the resolver\<close>

text \<open>
  C3. An IP string that is empty, is \<open>127.0.0.1\<close> or \<open>::1\<close>, or begins with
  \<open>192.168.\<close>, \<open>10.\<close> or \<open>172.\<close> resolves to the Local sentinel, and the
  resolver fetches nothing on the way, whatever the network would have answered.
\<close>

theorem local_ip_short_circuit:
  "ip = [] \<or> ip = ''127.0.0.1'' \<or> ip = ''::1'' \<or> (\<exists>r. ip = ''192.168.'' @ r)
     \<or> (\<exists>r. ip = ''10.'' @ r) \<or> (\<exists>r. ip = ''172.'' @ r) \<Longrightarrow>
   getLocationFromIP fetch parseFloat ip =
     (\<lparr>country = Str ''Local'', city = Str ''Local'', region = Str ''Local'',
       latitude = Null, longitude = Null\<rparr>, [])"
  by (auto simp: getLocationFromIP_def is_local_ip_def startsWith_def local_location_def)

theorem local_ip_short_circuit_witness:
  "getLocationFromIP (\<lambda>u. Response True (Some (Obj [(''country_name'', Str ''France'')])))
     (\<lambda>v. NaN) ''10.1.2.3'' =
     (\<lparr>country = Str ''Local'', city = Str ''Local'', region = Str ''Local'',
       latitude = Null, longitude = Null\<rparr>, [])"
  using local_ip_short_circuit [of "''10.1.2.3''"] by simp

lemma get_prop_member:
  "get_prop d k = (if d = Null \<or> d = Undefined then Inl TypeError else Inr (member d k))"
  by (cases d) (simp_all add: member_def)

lemma primary_attempt_failed:
  "primary_failed (fetch (primary_url ip)) \<longleftrightarrow>
     (\<forall>loc. primary_attempt fetch parseFloat ip \<noteq> Returned loc)"
  by (cases "fetch (primary_url ip)")
     (auto simp: primary_failed_def primary_attempt_def get_prop_member
           split: option.splits)

lemma primary_attempt_returned:
  "\<not> primary_failed (fetch (primary_url ip)) \<Longrightarrow>
     \<exists>d. fetch (primary_url ip) = Response True (Some d) \<and>
         primary_attempt fetch parseFloat ip = Returned (primary_location parseFloat d)"
  by (cases "fetch (primary_url ip)")
     (auto simp: primary_failed_def primary_attempt_def get_prop_member
           split: option.splits)

lemma secondary_attempt_failed:
  "secondary_failed (fetch (secondary_url ip)) \<longleftrightarrow>
     (\<forall>loc. secondary_attempt fetch ip \<noteq> Returned loc)"
  by (cases "fetch (secondary_url ip)")
     (auto simp: secondary_failed_def secondary_attempt_def get_prop_member
           split: option.splits)

lemma secondary_attempt_returned:
  "\<not> secondary_failed (fetch (secondary_url ip)) \<Longrightarrow>
     \<exists>d. fetch (secondary_url ip) = Response True (Some d) \<and>
         secondary_attempt fetch ip = Returned (secondary_location d)"
  by (cases "fetch (secondary_url ip)")
     (auto simp: secondary_failed_def secondary_attempt_def get_prop_member
           split: option.splits)

lemma resolver_after_primary_failure:
  assumes "\<not> is_local_ip ip" and "primary_failed (fetch (primary_url ip))"
  shows "getLocationFromIP fetch parseFloat ip =
           ((case secondary_attempt fetch ip of Returned loc \<Rightarrow> loc | _ \<Rightarrow> unknown_location),
            [primary_url ip, secondary_url ip])"
proof -
  from assms(2) have "\<forall>loc. primary_attempt fetch parseFloat ip \<noteq> Returned loc"
    using primary_attempt_failed [of fetch ip parseFloat] by simp
  with assms(1) show ?thesis
    by (simp add: getLocationFromIP_def split: attempt.splits)
qed

text \<open>
  C2. On an IP that is not local: when the primary lookup fails, the secondary service is
  fetched; when both fail, the result is the Unknown sentinel; a failed primary leaves no
  trace in the result, which is then the sentinel or the mapping of the secondary payload
  alone, so two runs whose primary lookups both fail and whose secondary answers agree
  return the same location; and a primary lookup that does not fail gives the mapping of
  its own payload, with no second fetch.
\<close>

theorem resolver_fallback:
  assumes "\<not> is_local_ip ip"
  shows "(primary_failed (fetch (primary_url ip)) \<longrightarrow>
            snd (getLocationFromIP fetch parseFloat ip) = [primary_url ip, secondary_url ip])
       \<and> (primary_failed (fetch (primary_url ip)) \<and> secondary_failed (fetch (secondary_url ip)) \<longrightarrow>
            fst (getLocationFromIP fetch parseFloat ip) =
              \<lparr>country = Str ''Unknown'', city = Str ''Unknown'', region = Str ''Unknown'',
               latitude = Null, longitude = Null\<rparr>)
       \<and> (primary_failed (fetch (primary_url ip)) \<and> \<not> secondary_failed (fetch (secondary_url ip)) \<longrightarrow>
            (\<exists>d. fetch (secondary_url ip) = Response True (Some d) \<and>
                 fst (getLocationFromIP fetch parseFloat ip) = secondary_location d))
       \<and> (\<forall>fetch' parseFloat'.
            primary_failed (fetch (primary_url ip)) \<and> primary_failed (fetch' (primary_url ip)) \<and>
            fetch' (secondary_url ip) = fetch (secondary_url ip) \<longrightarrow>
            fst (getLocationFromIP fetch' parseFloat' ip) = fst (getLocationFromIP fetch parseFloat ip))
       \<and> (\<not> primary_failed (fetch (primary_url ip)) \<longrightarrow>
            (\<exists>d. fetch (primary_url ip) = Response True (Some d) \<and>
                 getLocationFromIP fetch parseFloat ip =
                   (primary_location parseFloat d, [primary_url ip])))"
proof (intro conjI impI allI)
  assume "primary_failed (fetch (primary_url ip))"
  then show "snd (getLocationFromIP fetch parseFloat ip) = [primary_url ip, secondary_url ip]"
    using assms by (simp add: resolver_after_primary_failure)
next
  assume "primary_failed (fetch (primary_url ip)) \<and> secondary_failed (fetch (secondary_url ip))"
  then have p: "primary_failed (fetch (primary_url ip))"
    and "\<forall>loc. secondary_attempt fetch ip \<noteq> Returned loc"
    by (simp_all add: secondary_attempt_failed)
  then show "fst (getLocationFromIP fetch parseFloat ip) =
      \<lparr>country = Str ''Unknown'', city = Str ''Unknown'', region = Str ''Unknown'',
       latitude = Null, longitude = Null\<rparr>"
    using assms
    by (simp add: resolver_after_primary_failure unknown_location_def split: attempt.splits)
next
  assume a: "primary_failed (fetch (primary_url ip)) \<and> \<not> secondary_failed (fetch (secondary_url ip))"
  then obtain d where "fetch (secondary_url ip) = Response True (Some d)"
    and "secondary_attempt fetch ip = Returned (secondary_location d)"
    using secondary_attempt_returned by blast
  then show "\<exists>d. fetch (secondary_url ip) = Response True (Some d) \<and>
      fst (getLocationFromIP fetch parseFloat ip) = secondary_location d"
    using assms a by (simp add: resolver_after_primary_failure)
next
  fix fetch' parseFloat'
  assume a: "primary_failed (fetch (primary_url ip)) \<and> primary_failed (fetch' (primary_url ip)) \<and>
    fetch' (secondary_url ip) = fetch (secondary_url ip)"
  then have "secondary_attempt fetch' ip = secondary_attempt fetch ip"
    by (simp add: secondary_attempt_def)
  then show "fst (getLocationFromIP fetch' parseFloat' ip) = fst (getLocationFromIP fetch parseFloat ip)"
    using assms a by (simp add: resolver_after_primary_failure)
next
  assume "\<not> primary_failed (fetch (primary_url ip))"
  then obtain d where "fetch (primary_url ip) = Response True (Some d)"
    and "primary_attempt fetch parseFloat ip = Returned (primary_location parseFloat d)"
    using primary_attempt_returned by blast
  then show "\<exists>d. fetch (primary_url ip) = Response True (Some d) \<and>
      getLocationFromIP fetch parseFloat ip = (primary_location parseFloat d, [primary_url ip])"
    using assms by (simp add: getLocationFromIP_def)
qed

theorem resolver_fallback_witness:
  "\<not> is_local_ip ''8.8.8.8''
   \<and> primary_failed
        ((\<lambda>u. if u = primary_url ''8.8.8.8''
              then Response True (Some (Obj [(''error'', Bool True), (''country_name'', Str ''Atlantis'')]))
              else Response False None) (primary_url ''8.8.8.8''))
   \<and> getLocationFromIP
        (\<lambda>u. if u = primary_url ''8.8.8.8''
              then Response True (Some (Obj [(''error'', Bool True), (''country_name'', Str ''Atlantis'')]))
              else Response False None)
        (\<lambda>v. NaN) ''8.8.8.8'' =
       (\<lparr>country = Str ''Unknown'', city = Str ''Unknown'', region = Str ''Unknown'',
         latitude = Null, longitude = Null\<rparr>,
        [primary_url ''8.8.8.8'', secondary_url ''8.8.8.8''])"
proof -
  let ?F = "\<lambda>u. if u = primary_url ''8.8.8.8''
              then Response True (Some (Obj [(''error'', Bool True), (''country_name'', Str ''Atlantis'')]))
              else Response False None"
  have nl: "\<not> is_local_ip ''8.8.8.8''"
    by (simp add: is_local_ip_def startsWith_def)
  have p: "primary_failed (?F (primary_url ''8.8.8.8''))"
    by (simp add: primary_failed_def member_def)
  have s: "secondary_failed (?F (secondary_url ''8.8.8.8''))"
    by (simp add: secondary_failed_def primary_url_def secondary_url_def)
  from resolver_fallback [OF nl, of ?F "\<lambda>v. NaN"] p s
  have "snd (getLocationFromIP ?F (\<lambda>v. NaN) ''8.8.8.8'') =
          [primary_url ''8.8.8.8'', secondary_url ''8.8.8.8'']"
    and "fst (getLocationFromIP ?F (\<lambda>v. NaN) ''8.8.8.8'') =
          \<lparr>country = Str ''Unknown'', city = Str ''Unknown'', region = Str ''Unknown'',
           latitude = Null, longitude = Null\<rparr>"
    by blast+
  with nl p show ?thesis
    by (simp add: prod_eq_iff)
qed

section \<open>Properties of the client metadata\<close>

lemma nullable_lang: "nullable r \<longleftrightarrow> [] \<in> lang r"
  by (induction r) auto

lemma lang_deriv: "lang (deriv c r) = {w. c # w \<in> lang r}"
proof (induction r)
  case (Seq r s)
  show ?case
  proof (rule set_eqI)
    fix w
    have "c # w \<in> lang (Seq r s) \<longleftrightarrow>
        (\<exists>u v. c # w = u @ v \<and> u \<in> lang r \<and> v \<in> lang s)"
      by auto
    also have "\<dots> \<longleftrightarrow> ([] \<in> lang r \<and> c # w \<in> lang s) \<or>
        (\<exists>u' v. w = u' @ v \<and> c # u' \<in> lang r \<and> v \<in> lang s)"
      by (auto simp: Cons_eq_append_conv)
    also have "\<dots> \<longleftrightarrow> w \<in> lang (deriv c (Seq r s))"
      using Seq by (auto simp: nullable_lang)
    finally show "w \<in> lang (deriv c (Seq r s)) \<longleftrightarrow> w \<in> {w. c # w \<in> lang (Seq r s)}"
      by simp
  qed
qed auto

lemma test_lang: "test r s \<longleftrightarrow> s \<in> lang r"
  unfolding test_def
  by (induction s arbitrary: r) (simp_all add: nullable_lang lang_deriv)

lemma Cons_in_Seq_OneOf:
  "w \<in> lang (Seq (OneOf cs) r) \<longleftrightarrow> (\<exists>a v. w = a # v \<and> a \<in> set cs \<and> v \<in> lang r)"
proof
  assume "w \<in> lang (Seq (OneOf cs) r)"
  then show "\<exists>a v. w = a # v \<and> a \<in> set cs \<and> v \<in> lang r"
    by auto
next
  assume "\<exists>a v. w = a # v \<and> a \<in> set cs \<and> v \<in> lang r"
  then obtain a v where "w = [a] @ v" "a \<in> set cs" "v \<in> lang r"
    by auto
  then show "w \<in> lang (Seq (OneOf cs) r)"
    unfolding lang.simps by blast
qed

lemma lang_rep_OneOf: "lang (rep n (OneOf cs)) = {w. length w = n \<and> set w \<subseteq> set cs}"
proof (induction n)
  case 0
  show ?case by auto
next
  case (Suc n)
  show ?case
  proof (rule set_eqI)
    fix w
    show "w \<in> lang (rep (Suc n) (OneOf cs)) \<longleftrightarrow> w \<in> {w. length w = Suc n \<and> set w \<subseteq> set cs}"
      using Suc by (cases w) (auto simp: Cons_in_Seq_OneOf simp del: lang.simps(4))
  qed
qed

lemma lang_rep_upto_OneOf: "lang (rep_upto n (OneOf cs)) = {w. length w \<le> n \<and> set w \<subseteq> set cs}"
proof (induction n)
  case 0
  show ?case by auto
next
  case (Suc n)
  show ?case
  proof (rule set_eqI)
    fix w
    show "w \<in> lang (rep_upto (Suc n) (OneOf cs)) \<longleftrightarrow> w \<in> {w. length w \<le> Suc n \<and> set w \<subseteq> set cs}"
      using Suc by (cases w) (auto simp: Cons_in_Seq_OneOf simp del: lang.simps(4))
  qed
qed

lemma lang_rep_between_OneOf:
  assumes "m \<le> n"
  shows "lang (rep_between m n (OneOf cs)) = {w. is_group cs m n w}"
proof (rule set_eqI)
  fix w
  show "w \<in> lang (rep_between m n (OneOf cs)) \<longleftrightarrow> w \<in> {w. is_group cs m n w}"
  proof
    assume "w \<in> lang (rep_between m n (OneOf cs))"
    then show "w \<in> {w. is_group cs m n w}"
      using assms by (auto simp: rep_between_def lang_rep_OneOf lang_rep_upto_OneOf is_group_def)
  next
    assume "w \<in> {w. is_group cs m n w}"
    then have g: "m \<le> length w" "length w \<le> n" "set w \<subseteq> set cs"
      by (simp_all add: is_group_def)
    have "take m w \<in> lang (rep m (OneOf cs))"
      using g by (auto simp: lang_rep_OneOf dest: in_set_takeD)
    moreover have "drop m w \<in> lang (rep_upto (n - m) (OneOf cs))"
      using g by (auto simp: lang_rep_upto_OneOf dest: in_set_dropD)
    ultimately have "take m w @ drop m w \<in> lang (rep_between m n (OneOf cs))"
      unfolding rep_between_def lang.simps by blast
    then show "w \<in> lang (rep_between m n (OneOf cs))" by simp
  qed
qed

lemma lang_groups:
  "lang (Seq (rep n (Seq g (OneOf [sep]))) g) =
     {join sep gs | gs. length gs = Suc n \<and> list_all (\<lambda>w. w \<in> lang g) gs}"
proof (induction n)
  case 0
  show ?case
  proof (rule set_eqI)
    fix w
    show "w \<in> lang (Seq (rep 0 (Seq g (OneOf [sep]))) g) \<longleftrightarrow>
      w \<in> {join sep gs | gs. length gs = Suc 0 \<and> list_all (\<lambda>w. w \<in> lang g) gs}"
    proof
      assume "w \<in> lang (Seq (rep 0 (Seq g (OneOf [sep]))) g)"
      then have "w \<in> lang g" by simp
      then have "w = join sep [w] \<and> length [w] = Suc 0 \<and> list_all (\<lambda>w. w \<in> lang g) [w]"
        by simp
      then show "w \<in> {join sep gs | gs. length gs = Suc 0 \<and> list_all (\<lambda>w. w \<in> lang g) gs}"
        by blast
    next
      assume "w \<in> {join sep gs | gs. length gs = Suc 0 \<and> list_all (\<lambda>w. w \<in> lang g) gs}"
      then obtain gs where "w = join sep gs" "length gs = Suc 0" "list_all (\<lambda>w. w \<in> lang g) gs"
        by blast
      then show "w \<in> lang (Seq (rep 0 (Seq g (OneOf [sep]))) g)"
        by (cases gs) auto
    qed
  qed
next
  case (Suc n)
  let ?R = "Seq (rep n (Seq g (OneOf [sep]))) g"
  have step: "lang (Seq (rep (Suc n) (Seq g (OneOf [sep]))) g) =
      {u @ sep # v | u v. u \<in> lang g \<and> v \<in> lang ?R}"
    by (auto, (metis append.assoc append_Cons append_Nil)+)
  show ?case
  proof (rule set_eqI)
    fix w
    show "w \<in> lang (Seq (rep (Suc n) (Seq g (OneOf [sep]))) g) \<longleftrightarrow>
      w \<in> {join sep gs | gs. length gs = Suc (Suc n) \<and> list_all (\<lambda>w. w \<in> lang g) gs}"
    proof
      assume "w \<in> lang (Seq (rep (Suc n) (Seq g (OneOf [sep]))) g)"
      then obtain u v where uv: "w = u @ sep # v" "u \<in> lang g" "v \<in> lang ?R"
        unfolding step by blast
      then obtain gs where gs: "v = join sep gs" "length gs = Suc n" "list_all (\<lambda>w. w \<in> lang g) gs"
        unfolding Suc by blast
      then have "w = join sep (u # gs) \<and> length (u # gs) = Suc (Suc n) \<and>
          list_all (\<lambda>w. w \<in> lang g) (u # gs)"
        using uv by (cases gs) auto
      then show "w \<in> {join sep gs | gs. length gs = Suc (Suc n) \<and> list_all (\<lambda>w. w \<in> lang g) gs}"
        by blast
    next
      assume "w \<in> {join sep gs | gs. length gs = Suc (Suc n) \<and> list_all (\<lambda>w. w \<in> lang g) gs}"
      then obtain gs where gs: "w = join sep gs" "length gs = Suc (Suc n)"
          "list_all (\<lambda>w. w \<in> lang g) gs"
        by blast
      then obtain u gs' where c: "gs = u # gs'" "length gs' = Suc n"
        by (cases gs) auto
      then have "join sep gs' \<in> lang ?R"
        unfolding Suc using gs by auto
      moreover have "w = u @ sep # join sep gs'"
        using gs c by (cases gs') auto
      moreover have "u \<in> lang g"
        using gs c by simp
      ultimately show "w \<in> lang (Seq (rep (Suc n) (Seq g (OneOf [sep]))) g)"
        unfolding step by blast
    qed
  qed
qed

lemma ipv4Regex_shape: "test ipv4Regex s \<longleftrightarrow> ipv4_shape s"
proof -
  have "lang ipv4Regex =
      {join CHR ''.'' gs | gs. length gs = Suc 3 \<and> list_all (\<lambda>w. w \<in> lang (rep_between 1 3 digit)) gs}"
    unfolding ipv4Regex_def by (rule lang_groups)
  then show ?thesis
    by (auto simp: test_lang ipv4_shape_def digit_def lang_rep_between_OneOf)
qed

lemma ipv6Regex_shape: "test ipv6Regex s \<longleftrightarrow> ipv6_shape s"
proof -
  have "lang ipv6Regex =
      {join CHR '':'' gs | gs. length gs = Suc 7 \<and> list_all (\<lambda>w. w \<in> lang (rep_between 1 4 hexdigit)) gs}"
    unfolding ipv6Regex_def by (rule lang_groups)
  then show ?thesis
    by (auto simp: test_lang ipv6_shape_def hexdigit_def lang_rep_between_OneOf)
qed

lemma not_valid_empty: "\<not> isValidIP []"
  by (simp add: isValidIP_def ipv4Regex_def ipv6Regex_def test_def rep_between_def
        eval_nat_numeral)

lemma scan_headers_None:
  "scan_headers hs names = None \<longleftrightarrow>
     (\<forall>h \<in> set names. \<forall>v. hs h = Some v \<longrightarrow> \<not> isValidIP (trim (first_token v)))"
proof (induction names)
  case Nil
  show ?case by simp
next
  case (Cons h names)
  have e: "trim (first_token []) = []"
    by (simp add: trim_def first_token_def)
  show ?case
    using Cons not_valid_empty by (cases "hs h") (auto simp: Let_def e)
qed

lemma scan_headers_Some:
  "scan_headers hs names = Some ip \<Longrightarrow>
     \<exists>pre h post v. names = pre @ h # post \<and> hs h = Some v \<and> ip = trim (first_token v) \<and>
       isValidIP ip \<and>
       (\<forall>h' \<in> set pre. \<forall>v'. hs h' = Some v' \<longrightarrow> \<not> isValidIP (trim (first_token v')))"
proof (induction names)
  case Nil
  then show ?case by simp
next
  case (Cons h names)
  have e: "trim (first_token []) = []"
    by (simp add: trim_def first_token_def)
  show ?case
  proof (cases "\<exists>v. hs h = Some v \<and> isValidIP (trim (first_token v))")
    case True
    then obtain v where v: "hs h = Some v" "isValidIP (trim (first_token v))"
      by blast
    then have "v \<noteq> []"
      using e not_valid_empty by auto
    with v Cons.prems have "ip = trim (first_token v)"
      by (simp add: Let_def)
    with v have "h # names = [] @ h # names \<and> hs h = Some v \<and> ip = trim (first_token v) \<and>
        isValidIP ip \<and>
        (\<forall>h' \<in> set []. \<forall>v'. hs h' = Some v' \<longrightarrow> \<not> isValidIP (trim (first_token v')))"
      by simp
    then show ?thesis by blast
  next
    case False
    then have skip: "scan_headers hs (h # names) = scan_headers hs names"
      by (cases "hs h") (auto simp: Let_def)
    with Cons obtain pre h1 post v where p: "names = pre @ h1 # post" "hs h1 = Some v"
        "ip = trim (first_token v)" "isValidIP ip"
        "\<forall>h' \<in> set pre. \<forall>v'. hs h' = Some v' \<longrightarrow> \<not> isValidIP (trim (first_token v'))"
      by auto
    with False have "h # names = (h # pre) @ h1 # post \<and> hs h1 = Some v \<and>
        ip = trim (first_token v) \<and> isValidIP ip \<and>
        (\<forall>h' \<in> set (h # pre). \<forall>v'. hs h' = Some v' \<longrightarrow> \<not> isValidIP (trim (first_token v')))"
      by auto
    then show ?thesis by blast
  qed
qed

text \<open>
  C5. The extraction goes through the six proxy headers in their fixed order. What it
  returns is the trimmed first comma-separated token of a header that is present, it is
  valid, and no header before that one holds a valid token; it returns null exactly when
  no listed header holds one. Valid means: four dot-separated groups of one to three
  digits, or eight colon-separated groups of one to four hexadecimal digits. The result
  is a function of the headers alone.
\<close>

theorem client_ip_extraction:
  "(\<forall>ip. getClientIP req = Some ip \<longrightarrow>
      (\<exists>pre h post v.
         [''x-forwarded-for'', ''x-real-ip'', ''x-client-ip'', ''cf-connecting-ip'',
          ''true-client-ip'', ''x-cluster-client-ip''] = pre @ h # post \<and>
         headers req h = Some v \<and> ip = trim (first_token v) \<and> isValidIP ip \<and>
         (\<forall>h' \<in> set pre. \<forall>v'. headers req h' = Some v' \<longrightarrow>
            \<not> isValidIP (trim (first_token v')))))
   \<and> (getClientIP req = None \<longleftrightarrow>
        (\<forall>h \<in> set [''x-forwarded-for'', ''x-real-ip'', ''x-client-ip'', ''cf-connecting-ip'',
                     ''true-client-ip'', ''x-cluster-client-ip''].
           \<forall>v. headers req h = Some v \<longrightarrow> \<not> isValidIP (trim (first_token v))))
   \<and> (\<forall>ip. isValidIP ip \<longleftrightarrow> ipv4_shape ip \<or> ipv6_shape ip)
   \<and> (\<forall>req'. headers req' = headers req \<longrightarrow> getClientIP req' = getClientIP req)"
proof (intro conjI allI impI)
  fix ip
  assume "getClientIP req = Some ip"
  then have "scan_headers (headers req) possibleHeaders = Some ip"
    by (simp add: getClientIP_def)
  from scan_headers_Some [OF this]
  show "\<exists>pre h post v.
         [''x-forwarded-for'', ''x-real-ip'', ''x-client-ip'', ''cf-connecting-ip'',
          ''true-client-ip'', ''x-cluster-client-ip''] = pre @ h # post \<and>
         headers req h = Some v \<and> ip = trim (first_token v) \<and> isValidIP ip \<and>
         (\<forall>h' \<in> set pre. \<forall>v'. headers req h' = Some v' \<longrightarrow>
            \<not> isValidIP (trim (first_token v')))"
    unfolding possibleHeaders_def .
next
  show "getClientIP req = None \<longleftrightarrow>
        (\<forall>h \<in> set [''x-forwarded-for'', ''x-real-ip'', ''x-client-ip'', ''cf-connecting-ip'',
                     ''true-client-ip'', ''x-cluster-client-ip''].
           \<forall>v. headers req h = Some v \<longrightarrow> \<not> isValidIP (trim (first_token v)))"
    unfolding getClientIP_def scan_headers_None possibleHeaders_def ..
next
  fix ip
  show "isValidIP ip \<longleftrightarrow> ipv4_shape ip \<or> ipv6_shape ip"
    by (simp add: isValidIP_def ipv4Regex_shape ipv6Regex_shape)
next
  fix req' :: request
  assume "headers req' = headers req"
  then show "getClientIP req' = getClientIP req"
    by (simp add: getClientIP_def)
qed

theorem client_ip_extraction_witness:
  "getClientIP \<lparr>headers = map_of [(''x-forwarded-for'', ''unknown''),
                                   (''x-real-ip'', ''203.0.113.7 , 70.41.3.18'')],
                 origin = ''http://localhost:3000'', body = None\<rparr> = Some ''203.0.113.7''
   \<and> (ipv4_shape ''203.0.113.7'' \<or> ipv6_shape ''203.0.113.7'')"
proof -
  let ?R = "\<lparr>headers = map_of [(''x-forwarded-for'', ''unknown''),
                                 (''x-real-ip'', ''203.0.113.7 , 70.41.3.18'')],
              origin = ''http://localhost:3000'', body = None\<rparr>"
  have v: "isValidIP ''203.0.113.7''"
    by (simp add: isValidIP_def ipv4Regex_def test_def rep_between_def digit_def eval_nat_numeral)
  have n: "\<not> isValidIP ''unknown''"
    by (simp add: isValidIP_def ipv4Regex_def ipv6Regex_def test_def rep_between_def digit_def
          hexdigit_def eval_nat_numeral)
  have t1: "trim (first_token ''unknown'') = ''unknown''"
    by (simp add: trim_def first_token_def is_space_def)
  have t2: "trim (first_token ''203.0.113.7 , 70.41.3.18'') = ''203.0.113.7''"
    by (simp add: trim_def first_token_def is_space_def)
  have "getClientIP ?R = Some ''203.0.113.7''"
    by (simp add: getClientIP_def possibleHeaders_def t1 t2 v n)
  moreover from client_ip_extraction [of ?R]
  have "isValidIP ''203.0.113.7'' \<longleftrightarrow> ipv4_shape ''203.0.113.7'' \<or> ipv6_shape ''203.0.113.7''"
    by blast
  ultimately show ?thesis
    using v by simp
qed




section \<open>Properties of the persistence layer and of the handlers\<close>

lemma stmt_cases:
  "stmt run s =
     (if faults s \<noteq> [] \<and> hd (faults s) then (Inl SqliteError, s\<lparr>faults := tl (faults s)\<rparr>)
      else run (s\<lparr>faults := tl (faults s)\<rparr>))"
proof (cases "faults s")
  case Nil
  then have e: "s\<lparr>faults := []\<rparr> = s"
    by (cases s) simp
  show ?thesis
    by (simp add: stmt_def Nil e)
next
  case (Cons f fs)
  then show ?thesis
    by (simp add: stmt_def)
qed

lemma stmt_no_fault: "faults s = [] \<Longrightarrow> stmt run s = run s"
  by (simp add: stmt_def)

lemma select_no_fault: "faults s = [] \<Longrightarrow> select q s = (Inr (q s), s)"
  by (simp add: select_def stmt_def)

lemma select_cases:
  "select q s = (r, s') \<Longrightarrow>
     s' = s\<lparr>faults := tl (faults s)\<rparr> \<and> (r = Inl SqliteError \<or> r = Inr (q s'))"
  by (auto simp: select_def stmt_cases split: if_splits)

lemma recordClick_cases:
  "recordClick linkId ip loc ua rf s = (r, s') \<Longrightarrow>
     (r = Inl SqliteError \<and> s' = s\<lparr>faults := tl (faults s)\<rparr>) \<or>
     (r = Inl SqliteError \<and>
      s' = s\<lparr>faults := tl (tl (faults s)), clicks := clicks s @ [click_row s linkId ip loc ua rf],
             click_seq := Suc (click_seq s)\<rparr>) \<or>
     (r = Inr () \<and>
      s' = s\<lparr>faults := tl (tl (faults s)), clicks := clicks s @ [click_row s linkId ip loc ua rf],
             click_seq := Suc (click_seq s), links := bump linkId (links s)\<rparr>)"
  by (auto simp: recordClick_def updateLinkClickCount_def andThen_def stmt_cases click_row_def bump_def
      split: if_splits)

lemma bump_one:
  assumes "distinct (map l_id ls)" and "find P ls = Some link"
  shows "\<exists>i<length ls. ls ! i = link \<and>
           bump (l_id link) ls = ls[i := link\<lparr>click_count := click_count link + 1\<rparr>]"
proof -
  from assms(2) obtain i where i: "i < length ls" "ls ! i = link"
    by (auto simp: find_Some_iff)
  have "bump (l_id link) ls = ls[i := link\<lparr>click_count := click_count link + 1\<rparr>]"
  proof (rule nth_equalityI)
    show "length (bump (l_id link) ls) = length (ls[i := link\<lparr>click_count := click_count link + 1\<rparr>])"
      by (simp add: bump_def)
  next
    fix j
    assume "j < length (bump (l_id link) ls)"
    then have j: "j < length ls"
      by (simp add: bump_def)
    have "l_id (ls ! j) = l_id link \<longleftrightarrow> j = i"
      using assms(1) i j nth_eq_iff_index_eq [of "map l_id ls" j i] by auto
    then show "bump (l_id link) ls ! j = ls[i := link\<lparr>click_count := click_count link + 1\<rparr>] ! j"
      using i j by (auto simp: bump_def nth_list_update)
  qed
  with i show ?thesis by blast
qed

lemma getLinkByShortCode_cases:
  "getLinkByShortCode shortCode s = (r, s') \<Longrightarrow>
     s' = s\<lparr>faults := tl (faults s)\<rparr> \<and>
     (r = Inl SqliteError \<or> r = Inr (find (\<lambda>l. short_code l = shortCode) (links s)))"
  by (auto simp: getLinkByShortCode_def dest: select_cases)

lemma redirect_cases:
  "redirect parseURL target 302 =
     (if parseURL target = None then Inl Error else Inr (Redirect target 302))"
  by (simp add: redirect_def split: option.splits)

lemma track_try_returns:
  assumes "find (\<lambda>l. short_code l = shortCode) (links s) = Some link"
    and "track_try env req shortCode s = (Inr resp, s')"
  shows "resp = Redirect (original_url link) 302 \<and>
         (\<exists>c. clicks s' = clicks s @ [c] \<and> link_id c = l_id link) \<and>
         links s' = bump (l_id link) (links s)"
proof -
  obtain r s1 where g: "getLinkByShortCode shortCode s = (r, s1)"
    by fastforce
  from getLinkByShortCode_cases [OF g] assms(1)
  have s1: "links s1 = links s" "clicks s1 = clicks s" and r: "r = Inl SqliteError \<or> r = Inr (Some link)"
    by auto
  with assms(2) g have r': "r = Inr (Some link)"
    by (auto simp: track_try_def)
  define ip where "ip = (case getClientIP req of None \<Rightarrow> ''127.0.0.1''
                     | Some a \<Rightarrow> if a = [] then ''127.0.0.1'' else a)"
  define loc where "loc = fst (getLocationFromIP (env_fetch env) (env_parseFloat env) ip)"
  obtain r2 s2 where rc: "recordClick (l_id link) (Some ip) loc (headers req ''user-agent'')
      (sanitizeReferer (env_parseURL env) (headers req ''referer'')) s1 = (r2, s2)"
    by fastforce
  from assms(2) g r' rc have t: "r2 = Inr ()" "s' = s2"
      "redirect (env_parseURL env) (original_url link) 302 = Inr resp"
    by (auto simp: track_try_def Let_def ip_def loc_def split: sum.splits)
  from t(3) have "resp = Redirect (original_url link) 302"
    by (simp add: redirect_cases split: if_splits)
  moreover from recordClick_cases [OF rc] t(1)
  have "clicks s2 = clicks s1 @ [click_row s1 (l_id link) (Some ip) loc (headers req ''user-agent'')
      (sanitizeReferer (env_parseURL env) (headers req ''referer''))]"
    and "links s2 = bump (l_id link) (links s1)"
    by auto
  ultimately show ?thesis
    using s1 t(2) by (simp add: click_row_def)
qed

lemma track_try_no_fault:
  assumes "find (\<lambda>l. short_code l = shortCode) (links s) = Some link"
    and "faults s = []" and "env_parseURL env (original_url link) \<noteq> None"
  shows "\<exists>s'. track_try env req shortCode s = (Inr (Redirect (original_url link) 302), s')"
  using assms
  by (simp add: track_try_def getLinkByShortCode_def select_no_fault recordClick_def andThen_def
        updateLinkClickCount_def stmt_no_fault redirect_cases Let_def)

text \<open>The primary key of the links table is kept by every write of the layer.\<close>

lemma bump_ids: "map l_id (bump k ls) = map l_id ls"
  by (induction ls) (simp_all add: bump_def)

lemma recordClick_keeps_key:
  assumes "distinct (map l_id (links s))" and "recordClick linkId ip loc ua rf s = (r, s')"
  shows "distinct (map l_id (links s'))"
  using recordClick_cases [OF assms(2)] assms(1) by (auto simp: bump_ids)

text \<open>
  C1. A visit whose short code finds a link, and whose \<^verbatim>\<open>try\<close> block ends without an
  exception, is answered by a 302 redirect to the link's \<open>original_url\<close>; it leaves
  exactly one new click row, which names that link, and exactly one changed link row,
  that link with its \<open>click_count\<close> one higher (link identifiers are the primary key).
  Such visits exist: without a fault of the database, and with a destination that the
  framework can parse, the block does end so.
\<close>

theorem tracked_visit:
  assumes "find (\<lambda>l. short_code l = shortCode) (links s) = Some link"
    and "distinct (map l_id (links s))"
  shows "(\<forall>resp s'. track_try env req shortCode s = (Inr resp, s') \<longrightarrow>
            track_GET env req shortCode s = (resp, s') \<and>
            resp = Redirect (original_url link) 302 \<and>
            (\<exists>c. clicks s' = clicks s @ [c] \<and> link_id c = l_id link) \<and>
            (\<exists>i<length (links s). links s ! i = link \<and>
               links s' = (links s)[i := link\<lparr>click_count := click_count link + 1\<rparr>]))
       \<and> (faults s = [] \<and> env_parseURL env (original_url link) \<noteq> None \<longrightarrow>
            (\<exists>s'. track_try env req shortCode s = (Inr (Redirect (original_url link) 302), s')))"
proof (intro conjI allI impI)
  fix resp s'
  assume t: "track_try env req shortCode s = (Inr resp, s')"
  then show "track_GET env req shortCode s = (resp, s')"
    by (simp add: track_GET_def)
  from track_try_returns [OF assms(1) t]
  show "resp = Redirect (original_url link) 302"
    and "\<exists>c. clicks s' = clicks s @ [c] \<and> link_id c = l_id link"
    and "\<exists>i<length (links s). links s ! i = link \<and>
           links s' = (links s)[i := link\<lparr>click_count := click_count link + 1\<rparr>]"
    using bump_one [OF assms(2) assms(1)] by simp_all
next
  assume "faults s = [] \<and> env_parseURL env (original_url link) \<noteq> None"
  then show "\<exists>s'. track_try env req shortCode s = (Inr (Redirect (original_url link) 302), s')"
    using track_try_no_fault [OF assms(1)] by blast
qed

lemma blog_visit:
  "track_try example_env visit ''aB3_x-9Q'' blog_store =
     (Inr (Redirect ''https://example.com'' 302),
      blog_store\<lparr>clicks := [blog_click], click_seq := 1,
                  links := [blog\<lparr>click_count := 1\<rparr>]\<rparr>)"
  by (simp add: track_try_def getLinkByShortCode_def select_no_fault recordClick_def andThen_def
        updateLinkClickCount_def stmt_no_fault redirect_cases Let_def blog_store_def blog_def
        example_env_def visit_def getClientIP_def possibleHeaders_def sanitizeReferer_def
        getLocationFromIP_def is_local_ip_def local_location_def blog_click_def)

theorem tracked_visit_witness:
  "find (\<lambda>l. short_code l = ''aB3_x-9Q'') (links blog_store) = Some blog
   \<and> distinct (map l_id (links blog_store))
   \<and> track_GET example_env visit ''aB3_x-9Q'' blog_store =
       (Redirect ''https://example.com'' 302,
        blog_store\<lparr>clicks := [blog_click], click_seq := 1, links := [blog\<lparr>click_count := 1\<rparr>]\<rparr>)"
proof -
  have f: "find (\<lambda>l. short_code l = ''aB3_x-9Q'') (links blog_store) = Some blog"
    by (simp add: blog_store_def blog_def)
  have d: "distinct (map l_id (links blog_store))"
    by (simp add: blog_store_def)
  from tracked_visit [OF f d, of example_env visit] blog_visit
  have "track_GET example_env visit ''aB3_x-9Q'' blog_store =
       (Redirect ''https://example.com'' 302,
        blog_store\<lparr>clicks := [blog_click], click_seq := 1, links := [blog\<lparr>click_count := 1\<rparr>]\<rparr>)"
    by blast
  with f d show ?thesis by simp
qed








lemma deleteLink_cases:
  "deleteLink ident s = (r, s') \<Longrightarrow>
     (r = Inl SqliteError \<and> s' = s\<lparr>faults := tl (faults s)\<rparr>) \<or>
     (r = Inl SqliteError \<and>
      s' = s\<lparr>faults := tl (tl (faults s)),
             clicks := filter (\<lambda>c. link_id c \<noteq> ident) (clicks s)\<rparr>) \<or>
     (r = Inr (ident \<in> set (map l_id (links s))) \<and>
      s' = s\<lparr>faults := tl (tl (faults s)),
             clicks := filter (\<lambda>c. link_id c \<noteq> ident) (clicks s),
             links := filter (\<lambda>l. l_id l \<noteq> ident) (links s)\<rparr>)"
  by (auto simp: deleteLink_def andThen_def stmt_cases filter_empty_conv split: if_splits)


lemma deleteLink_keeps_key:
  assumes "distinct (map l_id (links s))" and "deleteLink ident s = (r, s')"
  shows "distinct (map l_id (links s'))"
  using deleteLink_cases [OF assms(2)] assms(1) by (auto simp: distinct_map_filter)





lemma find_snoc_fresh:
  "\<forall>x \<in> set xs. \<not> P x \<Longrightarrow> P y \<Longrightarrow> find P (xs @ [y]) = Some y"
  by (induction xs) auto

lemma createLink_cases:
  assumes "createLink n u random s = (r, s')"
  shows "(r = Inl SqliteError \<and> links s' = links s \<and> clicks s' = clicks s)
       \<or> (fresh s random \<and> links s' = links s @ [new_link s n u random] \<and> clicks s' = clicks s \<and>
           (r = Inl SqliteError \<or> r = Inr (Some (new_link s n u random))))"
proof -
  have f: "fresh s random \<Longrightarrow>
      find (\<lambda>l. l_id l = nanoid random 0 21) (links s @ [new_link s n u random]) =
        Some (new_link s n u random)"
    by (rule find_snoc_fresh) (auto simp: fresh_def new_link_def)
  have nf: "\<not> fresh s random \<longleftrightarrow>
      (\<exists>l \<in> set (links s). l_id l = nanoid random 0 21 \<or> short_code l = nanoid random 21 8)"
    by (auto simp: fresh_def)
  show ?thesis
  proof (cases "fresh s random")
    case True
    with assms f nf show ?thesis
      by (auto simp: createLink_def Let_def andThen_def select_def stmt_cases new_link_def
          split: if_splits)
  next
    case False
    with assms nf show ?thesis
      by (auto simp: createLink_def Let_def andThen_def select_def stmt_cases
          split: if_splits)
  qed
qed

lemma createLink_no_fault:
  assumes "faults s = []"
  shows "createLink n u random s =
     (if fresh s random
      then (Inr (Some (new_link s n u random)), s\<lparr>links := links s @ [new_link s n u random]\<rparr>)
      else (Inl SqliteError, s))"
proof -
  have f: "fresh s random \<Longrightarrow>
      find (\<lambda>l. l_id l = nanoid random 0 21) (links s @ [new_link s n u random]) =
        Some (new_link s n u random)"
    by (rule find_snoc_fresh) (auto simp: fresh_def new_link_def)
  have nf: "\<not> fresh s random \<longleftrightarrow>
      (\<exists>l \<in> set (links s). l_id l = nanoid random 0 21 \<or> short_code l = nanoid random 21 8)"
    by (auto simp: fresh_def)
  show ?thesis
  proof (cases "fresh s random")
    case True
    with assms f nf show ?thesis
      by (simp add: createLink_def Let_def andThen_def select_def stmt_no_fault new_link_def)
  next
    case False
    with assms nf show ?thesis
      by (simp add: createLink_def Let_def andThen_def select_def stmt_no_fault)
  qed
qed

lemma schema_valid:
  "createLinkSchema parseURL b = Inr (n, u) \<longleftrightarrow> valid_body parseURL b n u"
  by (cases b)
     (auto simp: createLinkSchema_def valid_body_def check_name_def check_originalUrl_def Let_def
       Suc_le_eq split: list.splits jsval.splits if_splits)

lemma schema_issues:
  "createLinkSchema parseURL b = Inl issues \<Longrightarrow>
     issues \<noteq> [] \<and>
     set issues \<subseteq> {invalid_type [], invalid_type [''name''], invalid_type [''originalUrl''],
       check_failed [''name''] ''Name is required'', check_failed [''name''] ''Name too long'',
       check_failed [''originalUrl''] ''Invalid URL format''}"
  by (cases b)
     (auto simp: createLinkSchema_def check_name_def check_originalUrl_def Let_def
       split: list.splits jsval.splits if_splits)

lemma length_nanoid: "length (nanoid random off n) = n"
  by (simp add: nanoid_def)

lemma fresh_unique:
  "fresh s random \<Longrightarrow>
     nanoid random 0 21 \<notin> set (map l_id (links s)) \<and>
     nanoid random 21 8 \<notin> set (map short_code (links s))"
  by (auto simp: fresh_def)

lemma createLink_keeps_key:
  assumes "distinct (map l_id (links s))" and "createLink n u random s = (r, s')"
  shows "distinct (map l_id (links s'))"
proof -
  from createLink_cases [OF assms(2)]
  have "links s' = links s \<or> (fresh s random \<and> links s' = links s @ [new_link s n u random])"
    by auto
  then show ?thesis
  proof
    assume "links s' = links s"
    with assms(1) show ?thesis by simp
  next
    assume a: "fresh s random \<and> links s' = links s @ [new_link s n u random]"
    then have "l_id (new_link s n u random) \<notin> set (map l_id (links s))"
      using fresh_unique [of s random] by (simp add: new_link_def)
    with a assms(1) show ?thesis by simp
  qed
qed

lemma find_new_link:
  "fresh s random \<Longrightarrow>
     find (\<lambda>l. short_code l = nanoid random 21 8) (links s @ [new_link s n u random]) =
       Some (new_link s n u random)"
  by (rule find_snoc_fresh) (auto simp: fresh_def new_link_def)

lemma links_POST_valid:
  assumes "valid_body (env_parseURL env) b n u" and "body req = Some b"
  shows "links_POST env req random s =
     (case createLink n u random s of
        (Inr (Some link), s1) \<Rightarrow>
          (Json 201 (Created link (origin req @ ''/track/'' @ short_code link)), s1)
      | (_, s1) \<Rightarrow> (Json 500 (Failure ''Failed to create link''), s1))"
  using assms schema_valid [of "env_parseURL env" b n u]
  by (simp add: links_POST_def)

text \<open>
  C9, as the code has it. For a body that is valid (a name of 1 to 100 characters, an
  \<open>originalUrl\<close> that parses): whenever the endpoint answers 201, the link it returns is
  the inserted row, with an identifier of 21 and a short code of 8 generated symbols,
  neither of them in the table before; the table has this one row more; the link is what
  a lookup by its short code finds; and the tracking URL is the origin, \<open>/track/\<close> and
  the short code. With no fault of the database and a fresh draw the endpoint does answer
  so. When the draw is not fresh, the \<^verbatim>\<open>INSERT\<close> violates the key or the
  \<^verbatim>\<open>UNIQUE\<close> constraint: the answer is the 500 \<open>Failed to create link\<close> and the
  database is as before. A body that fails validation is answered by 400 with a
  non-empty list of issues, each naming its field, and the database is as before; a body
  that is not JSON is answered by the 500.
\<close>

theorem create_link:
  "(valid_body (env_parseURL env) b n u \<and> body req = Some b \<longrightarrow>
      (\<forall>link url s'. links_POST env req random s = (Json 201 (Created link url), s') \<longrightarrow>
          link = new_link s n u random \<and>
          length (l_id link) = 21 \<and> length (short_code link) = 8 \<and>
          l_id link \<notin> set (map l_id (links s)) \<and>
          short_code link \<notin> set (map short_code (links s)) \<and>
          links s' = links s @ [link] \<and> clicks s' = clicks s \<and>
          find (\<lambda>l. short_code l = short_code link) (links s') = Some link \<and>
          url = origin req @ ''/track/'' @ short_code link)
    \<and> (faults s = [] \<and> fresh s random \<longrightarrow>
          links_POST env req random s =
            (Json 201 (Created (new_link s n u random)
               (origin req @ ''/track/'' @ nanoid random 21 8)),
             s\<lparr>links := links s @ [new_link s n u random]\<rparr>) \<and>
          getLinkByShortCode (nanoid random 21 8)
              (s\<lparr>links := links s @ [new_link s n u random]\<rparr>) =
            (Inr (Some (new_link s n u random)), s\<lparr>links := links s @ [new_link s n u random]\<rparr>))
    \<and> (faults s = [] \<and> \<not> fresh s random \<longrightarrow>
          links_POST env req random s = (Json 500 (Failure ''Failed to create link''), s)))
   \<and> (body req = Some b \<and> (\<forall>n' u'. \<not> valid_body (env_parseURL env) b n' u') \<longrightarrow>
        (\<exists>issues. links_POST env req random s = (Json 400 (Invalid issues), s) \<and>
           issues \<noteq> [] \<and>
           set issues \<subseteq> {invalid_type [], invalid_type [''name''], invalid_type [''originalUrl''],
             check_failed [''name''] ''Name is required'', check_failed [''name''] ''Name too long'',
             check_failed [''originalUrl''] ''Invalid URL format''}))
   \<and> (body req = None \<longrightarrow>
        links_POST env req random s = (Json 500 (Failure ''Failed to create link''), s))"
proof (intro conjI impI allI)
  fix link url s'
  assume v: "valid_body (env_parseURL env) b n u \<and> body req = Some b"
    and p: "links_POST env req random s = (Json 201 (Created link url), s')"
  obtain r s1 where c: "createLink n u random s = (r, s1)"
    by fastforce
  from v p c have r: "r = Inr (Some link)" "s' = s1" "url = origin req @ ''/track/'' @ short_code link"
    by (auto simp: links_POST_valid split: sum.splits option.splits)
  with createLink_cases [OF c]
  have k: "fresh s random" "links s' = links s @ [new_link s n u random]" "clicks s' = clicks s"
    "link = new_link s n u random"
    by auto
  show "link = new_link s n u random" by fact
  show "length (l_id link) = 21" "length (short_code link) = 8"
    by (simp_all add: k new_link_def length_nanoid)
  show "l_id link \<notin> set (map l_id (links s))" "short_code link \<notin> set (map short_code (links s))"
    using fresh_unique [OF k(1)] by (simp_all add: k new_link_def)
  show "links s' = links s @ [link]" "clicks s' = clicks s"
    using k by simp_all
  show "find (\<lambda>l. short_code l = short_code link) (links s') = Some link"
    using find_new_link [OF k(1), of n u] by (simp add: k new_link_def)
  show "url = origin req @ ''/track/'' @ short_code link" by fact
next
  assume v: "valid_body (env_parseURL env) b n u \<and> body req = Some b"
    and f: "faults s = [] \<and> fresh s random"
  then have "createLink n u random s =
      (Inr (Some (new_link s n u random)), s\<lparr>links := links s @ [new_link s n u random]\<rparr>)"
    by (simp add: createLink_no_fault)
  moreover have "short_code (new_link s n u random) = nanoid random 21 8"
    by (simp add: new_link_def)
  ultimately show "links_POST env req random s =
            (Json 201 (Created (new_link s n u random)
               (origin req @ ''/track/'' @ nanoid random 21 8)),
             s\<lparr>links := links s @ [new_link s n u random]\<rparr>)"
    using v links_POST_valid [of env b n u req random s] by simp
  from f show "getLinkByShortCode (nanoid random 21 8)
              (s\<lparr>links := links s @ [new_link s n u random]\<rparr>) =
            (Inr (Some (new_link s n u random)), s\<lparr>links := links s @ [new_link s n u random]\<rparr>)"
    by (simp add: getLinkByShortCode_def select_no_fault find_new_link)
next
  assume "valid_body (env_parseURL env) b n u \<and> body req = Some b"
    and "faults s = [] \<and> \<not> fresh s random"
  then show "links_POST env req random s = (Json 500 (Failure ''Failed to create link''), s)"
    using links_POST_valid [of env b n u req random s] by (simp add: createLink_no_fault)
next
  assume a: "body req = Some b \<and> (\<forall>n' u'. \<not> valid_body (env_parseURL env) b n' u')"
  then obtain issues where i: "createLinkSchema (env_parseURL env) b = Inl issues"
    using schema_valid [of "env_parseURL env" b]
    by (cases "createLinkSchema (env_parseURL env) b") auto
  with a have "links_POST env req random s = (Json 400 (Invalid issues), s)"
    by (simp add: links_POST_def)
  with schema_issues [OF i]
  show "\<exists>issues. links_POST env req random s = (Json 400 (Invalid issues), s) \<and>
           issues \<noteq> [] \<and>
           set issues \<subseteq> {invalid_type [], invalid_type [''name''], invalid_type [''originalUrl''],
             check_failed [''name''] ''Name is required'', check_failed [''name''] ''Name too long'',
             check_failed [''originalUrl''] ''Invalid URL format''}"
    by blast
next
  assume "body req = None"
  then show "links_POST env req random s = (Json 500 (Failure ''Failed to create link''), s)"
    by (simp add: links_POST_def)
qed

lemma lucky_draw: "nanoid lucky 0 21 = ''V1StGXR8_Z5jdHi6B-myT''" "nanoid lucky 21 8 = ''aB3_x-9Q''"
  by code_simp+

lemma unlucky_draw: "nanoid unlucky 0 21 = ''Uakgb_J5m9g-0JDMbcJqL''" "nanoid unlucky 21 8 = ''aB3_x-9Q''"
  by code_simp+

lemma blog_body_valid:
  "valid_body (env_parseURL example_env)
     (Obj [(''name'', Str ''Blog''), (''originalUrl'', Str ''https://example.com'')])
     ''Blog'' ''https://example.com''"
  by (simp add: valid_body_def member_def example_env_def)

theorem create_link_witness:
  "links_POST example_env blog_request lucky empty_store =
     (Json 201 (Created blog ''http://localhost:3000/track/aB3_x-9Q''),
      empty_store\<lparr>links := [blog]\<rparr>)
   \<and> links_POST example_env
        (blog_request\<lparr>body := Some (Obj [(''name'', Str []), (''originalUrl'', Str ''not-a-url'')])\<rparr>)
        lucky empty_store =
     (Json 400 (Invalid [check_failed [''name''] ''Name is required'',
                         check_failed [''originalUrl''] ''Invalid URL format'']),
      empty_store)"
proof -
  have bad: "links_POST example_env
        (blog_request\<lparr>body := Some (Obj [(''name'', Str []), (''originalUrl'', Str ''not-a-url'')])\<rparr>)
        lucky empty_store =
     (Json 400 (Invalid [check_failed [''name''] ''Name is required'',
                         check_failed [''originalUrl''] ''Invalid URL format'']),
      empty_store)"
    by (simp add: links_POST_def createLinkSchema_def check_name_def check_originalUrl_def
          member_def blog_request_def example_env_def)
  have b: "body blog_request =
      Some (Obj [(''name'', Str ''Blog''), (''originalUrl'', Str ''https://example.com'')])"
    by (simp add: blog_request_def)
  have f: "faults empty_store = [] \<and> fresh empty_store lucky"
    by (simp add: empty_store_def fresh_def)
  have n: "new_link empty_store ''Blog'' ''https://example.com'' lucky = blog"
    by (simp add: new_link_def lucky_draw blog_def empty_store_def)
  from create_link [of example_env _ "''Blog''" "''https://example.com''" blog_request lucky empty_store]
    blog_body_valid b f
  have "links_POST example_env blog_request lucky empty_store =
      (Json 201 (Created (new_link empty_store ''Blog'' ''https://example.com'' lucky)
         (origin blog_request @ ''/track/'' @ nanoid lucky 21 8)),
       empty_store\<lparr>links := links empty_store @
         [new_link empty_store ''Blog'' ''https://example.com'' lucky]\<rparr>)"
    by blast
  moreover have "links empty_store = []" "origin blog_request = ''http://localhost:3000''"
    by (simp_all add: empty_store_def blog_request_def)
  ultimately show ?thesis
    using bad by (simp add: n lucky_draw)
qed

theorem create_collision_counterexample:
  "valid_body (env_parseURL example_env)
     (Obj [(''name'', Str ''Blog''), (''originalUrl'', Str ''https://example.com'')])
     ''Blog'' ''https://example.com''
   \<and> body blog_request =
       Some (Obj [(''name'', Str ''Blog''), (''originalUrl'', Str ''https://example.com'')])
   \<and> nanoid unlucky 21 8 = short_code blog
   \<and> links_POST example_env blog_request unlucky blog_store =
       (Json 500 (Failure ''Failed to create link''), blog_store)"
proof (intro conjI)
  show "valid_body (env_parseURL example_env)
     (Obj [(''name'', Str ''Blog''), (''originalUrl'', Str ''https://example.com'')])
     ''Blog'' ''https://example.com''"
    by (rule blog_body_valid)
  show "body blog_request =
       Some (Obj [(''name'', Str ''Blog''), (''originalUrl'', Str ''https://example.com'')])"
    by (simp add: blog_request_def)
  show "nanoid unlucky 21 8 = short_code blog"
    by (simp add: unlucky_draw blog_def)
  show "links_POST example_env blog_request unlucky blog_store =
       (Json 500 (Failure ''Failed to create link''), blog_store)"
    by (simp add: unlucky_draw links_POST_def createLinkSchema_def check_name_def
        check_originalUrl_def member_def blog_request_def example_env_def createLink_def
        andThen_def stmt_def blog_store_def blog_def Let_def)
qed

section \<open>Properties of the analytics\<close>

lemma remdups_same_prefix:
  "xs \<noteq> [] \<Longrightarrow> \<forall>x \<in> set xs. x = a \<Longrightarrow> a \<notin> set ys \<Longrightarrow> remdups (xs @ ys) = a # remdups ys"
proof (induction xs)
  case Nil
  then show ?case by simp
next
  case (Cons x xs)
  show ?case
  proof (cases "xs = []")
    case True
    with Cons.prems show ?thesis by simp
  next
    case False
    with Cons have "remdups (xs @ ys) = a # remdups ys"
      by simp
    moreover from False Cons.prems have "x \<in> set (xs @ ys)"
      by (cases xs) auto
    ultimately show ?thesis
      by simp
  qed
qed

lemma group_rows_concat:
  assumes "distinct (map k ls)"
    and "\<forall>l \<in> set ls. J l \<noteq> [] \<and> (\<forall>r \<in> set (J l). key r = k l)"
  shows "group_rows key (concat (map J ls)) = map (\<lambda>l. (k l, J l)) ls"
  using assms
proof (induction ls)
  case Nil
  show ?case by (simp add: group_rows_def)
next
  case (Cons l ls)
  let ?R = "concat (map J ls)"
  from Cons.prems have jl: "J l \<noteq> []" "\<forall>r \<in> set (J l). key r = k l"
    and kl: "k l \<notin> k ` set ls"
    and rest: "\<forall>l' \<in> set ls. \<forall>r \<in> set (J l'). key r = k l'"
    by auto
  from rest have keysR: "\<forall>r \<in> set ?R. key r \<in> k ` set ls"
    by auto
  with kl have notin: "k l \<notin> set (map key ?R)"
    by auto
  have keys: "remdups (map key (J l @ ?R)) = k l # remdups (map key ?R)"
    using remdups_same_prefix [of "map key (J l)" "k l" "map key ?R"] jl notin
    by simp
  have nk: "\<forall>r \<in> set ?R. key r \<noteq> k l"
    using keysR kl by metis
  have o1: "filter (\<lambda>r. key r = k l) (J l) = J l"
    unfolding filter_id_conv using jl(2) by blast
  have o2: "filter (\<lambda>r. key r = k l) ?R = []"
    unfolding filter_empty_conv using nk by blast
  have own: "filter (\<lambda>r. key r = k l) (J l @ ?R) = J l"
    unfolding filter_append o1 o2 by (rule append_Nil2)
  have others: "\<And>k'. k' \<in> set (map key ?R) \<Longrightarrow>
      filter (\<lambda>r. key r = k') (J l @ ?R) = filter (\<lambda>r. key r = k') ?R"
    using jl(2) notin by (auto simp: filter_empty_conv)
  have ih: "group_rows key ?R = map (\<lambda>l. (k l, J l)) ls"
    using Cons by simp
  have "group_rows key (concat (map J (l # ls))) =
      (k l, J l) # map (\<lambda>k'. (k', filter (\<lambda>r. key r = k') (J l @ ?R))) (remdups (map key ?R))"
    by (simp add: group_rows_def keys own del: map_append filter_append)
  also have "map (\<lambda>k'. (k', filter (\<lambda>r. key r = k') (J l @ ?R))) (remdups (map key ?R)) =
      map (\<lambda>k'. (k', filter (\<lambda>r. key r = k') ?R)) (remdups (map key ?R))"
    by (rule map_cong [OF refl]) (simp add: others del: filter_append)
  also have "\<dots> = group_rows key ?R"
    by (simp add: group_rows_def)
  finally show ?case
    by (simp add: ih)
qed

lemma count_recent_left_join:
  assumes "distinct (map l_id ls)"
  shows "count_recent (left_join ls on cs) = map (\<lambda>l. (l, length (filter (on l) cs))) ls"
proof -
  let ?J = "\<lambda>l. case filter (on l) cs of [] \<Rightarrow> [(l, None)]
                 | c # rest \<Rightarrow> map (\<lambda>c'. (l, Some c')) (c # rest)"
  have j: "\<forall>l \<in> set ls. ?J l \<noteq> [] \<and> (\<forall>r \<in> set (?J l). l_id (fst r) = l_id l)"
    by (auto split: list.splits)
  have g: "group_rows (\<lambda>r. l_id (fst r)) (left_join ls on cs) = map (\<lambda>l. (l_id l, ?J l)) ls"
    unfolding left_join_def by (rule group_rows_concat [OF assms j])
  have c: "\<And>l. (case ?J l of [] \<Rightarrow> None
        | r # rest \<Rightarrow> Some (fst r, length (filter (\<lambda>r'. snd r' \<noteq> None) (?J l)))) =
      Some (l, length (filter (on l) cs))"
  proof -
    fix l
    show "(case ?J l of [] \<Rightarrow> None
        | r # rest \<Rightarrow> Some (fst r, length (filter (\<lambda>r'. snd r' \<noteq> None) (?J l)))) =
      Some (l, length (filter (on l) cs))"
      by (cases "filter (on l) cs") (simp_all add: filter_map comp_def)
  qed
  show ?thesis
    unfolding count_recent_def g
    by (induction ls) (simp_all add: List.map_filter_simps c del: filter.simps)
qed

lemma top_order_sorted: "sorted_wrt ranks_before (top_order rows)"
proof -
  have "sorted (map (\<lambda>(l, n). (- int n, - click_count l)) (top_order rows))"
    unfolding top_order_def by (rule sorted_sort_key)
  then have "sorted_wrt (\<lambda>x y. (\<lambda>(l, n). (- int n, - click_count l)) x \<le>
      (\<lambda>(l, n). (- int n, - click_count l)) y) (top_order rows)"
    by (simp add: sorted_map)
  then show ?thesis
    by (rule sorted_wrt_mono_rel [rotated])
       (auto simp: ranks_before_def less_eq_prod_def split: prod.splits)
qed

lemma top_order_mset: "mset (top_order rows) = mset rows"
  by (simp add: top_order_def)

lemma getGlobalAnalytics_returns:
  assumes "getGlobalAnalytics s = (Inr a, s')"
  shows "totalLinks a = length (links s) \<and> totalClicks a = length (clicks s) \<and>
         topLinks a = take 5 (top_order (count_recent (left_join (links s)
           (\<lambda>l c. l_id l = link_id c \<and> now s - days 7 \<le> clicked_at c) (clicks s))))"
  using assms
  by (auto simp: getGlobalAnalytics_def andThen_def select_def stmt_cases split: if_splits)

lemma getGlobalAnalytics_no_fault:
  "faults s = [] \<Longrightarrow> \<exists>a. getGlobalAnalytics s = (Inr a, s)"
  by (simp add: getGlobalAnalytics_def andThen_def select_no_fault)

text \<open>
  C8. Whenever the global summary is returned, its \<open>totalClicks\<close> is the number of rows
  of the clicks table, and (link identifiers being the primary key) its \<open>topLinks\<close> are
  the first five of a ranking of all links, each with its number of clicks of the
  trailing seven days, in which a link with more such clicks stands before one with
  fewer, and of two links with equally many the one with the higher \<open>click_count\<close>
  stands first. With no fault of the database the summary is returned.
\<close>

theorem global_analytics:
  "(\<forall>a s'. getGlobalAnalytics s = (Inr a, s') \<longrightarrow>
      totalClicks a = length (clicks s) \<and>
      (distinct (map l_id (links s)) \<longrightarrow>
         (\<exists>ranked. topLinks a = take 5 ranked \<and>
            mset ranked = mset (map (\<lambda>l. (l, recent_clicks s l)) (links s)) \<and>
            sorted_wrt ranks_before ranked)))
   \<and> (faults s = [] \<longrightarrow> (\<exists>a. getGlobalAnalytics s = (Inr a, s)))"
proof (intro conjI allI impI)
  fix a s'
  assume g: "getGlobalAnalytics s = (Inr a, s')"
  note r = getGlobalAnalytics_returns [OF g]
  from r show "totalClicks a = length (clicks s)"
    by simp
  assume d: "distinct (map l_id (links s))"
  let ?on = "\<lambda>l c. l_id l = link_id c \<and> now s - days 7 \<le> clicked_at c"
  let ?ranked = "top_order (count_recent (left_join (links s) ?on (clicks s)))"
  have "count_recent (left_join (links s) ?on (clicks s)) =
      map (\<lambda>l. (l, recent_clicks s l)) (links s)"
    unfolding count_recent_left_join [OF d]
    by (simp add: recent_clicks_def)
  then have "mset ?ranked = mset (map (\<lambda>l. (l, recent_clicks s l)) (links s))"
    by (simp add: top_order_mset)
  with r top_order_sorted [of "count_recent (left_join (links s) ?on (clicks s))"]
  show "\<exists>ranked. topLinks a = take 5 ranked \<and>
            mset ranked = mset (map (\<lambda>l. (l, recent_clicks s l)) (links s)) \<and>
            sorted_wrt ranks_before ranked"
    by blast
next
  assume "faults s = []"
  then show "\<exists>a. getGlobalAnalytics s = (Inr a, s)"
    by (rule getGlobalAnalytics_no_fault)
qed

lemma two_links_summary:
  "getGlobalAnalytics two_links =
     (Inr \<lparr>totalLinks = 2, totalClicks = 1,
           recentClicks = [(blog_click, ''Blog'', ''aB3_x-9Q'')],
           topLinks = [(blog\<lparr>click_count := 1\<rparr>, 1), (docs, 0)]\<rparr>, two_links)"
  by (simp add: getGlobalAnalytics_def andThen_def select_def stmt_def two_links_def
        inner_join_def left_join_def count_recent_def group_rows_def top_order_def
        newest_first_def List.map_filter_simps days_def blog_def docs_def blog_click_def
        less_eq_prod_def)

theorem global_analytics_witness:
  "faults two_links = [] \<and> distinct (map l_id (links two_links))
   \<and> getGlobalAnalytics two_links =
     (Inr \<lparr>totalLinks = 2, totalClicks = 1,
           recentClicks = [(blog_click, ''Blog'', ''aB3_x-9Q'')],
           topLinks = [(blog\<lparr>click_count := 1\<rparr>, 1), (docs, 0)]\<rparr>, two_links)
   \<and> length (clicks two_links) = 1
   \<and> sorted_wrt ranks_before [(blog\<lparr>click_count := 1\<rparr>, 1), (docs, 0)]"
proof -
  let ?A = "\<lparr>totalLinks = 2, totalClicks = 1,
           recentClicks = [(blog_click, ''Blog'', ''aB3_x-9Q'')],
           topLinks = [(blog\<lparr>click_count := 1\<rparr>, 1), (docs, 0)]\<rparr>"
  have f: "faults two_links = []" and d: "distinct (map l_id (links two_links))"
    by (simp_all add: two_links_def blog_def docs_def)
  from global_analytics [of two_links] two_links_summary
  have "totalClicks ?A = length (clicks two_links)"
    by blast
  then have "length (clicks two_links) = 1"
    by simp
  moreover have "sorted_wrt ranks_before [(blog\<lparr>click_count := 1\<rparr>, 1), (docs, 0)]"
    by (simp add: ranks_before_def)
  ultimately show ?thesis
    using f d two_links_summary by simp
qed

lemma length_newest_first: "length (newest_first stamp rows) = length rows"
  by (simp add: newest_first_def)

lemma getLinkAnalytics_returns:
  assumes "getLinkAnalytics linkId s = (Inr a, s')"
  shows "link_clicks a = newest_first clicked_at (filter (\<lambda>c. link_id c = linkId) (clicks s)) \<and>
         link_totalClicks a = length (filter (\<lambda>c. link_id c = linkId) (clicks s))"
  using assms
  by (auto simp: getLinkAnalytics_def getClicksByLinkId_def andThen_def select_def stmt_cases
        length_newest_first split: if_splits)

lemma getLinkAnalytics_no_fault:
  "faults s = [] \<Longrightarrow> \<exists>a. getLinkAnalytics linkId s = (Inr a, s)"
  by (simp add: getLinkAnalytics_def getClicksByLinkId_def andThen_def select_no_fault)

lemma getLinkAnalytics_links:
  "fst (getLinkAnalytics linkId (s\<lparr>links := ls\<rparr>)) = fst (getLinkAnalytics linkId s)"
  by (simp add: getLinkAnalytics_def getClicksByLinkId_def andThen_def select_def stmt_cases)

text \<open>
  C10. Whenever the summary of a link is returned, its \<open>totalClicks\<close> is the length of the
  click list it fetched, which is the list of the click rows naming that identifier,
  newest first; so it is the number of those rows. With no fault of the database the
  summary is returned. The summary does not read the links table: replacing that table
  by any other leaves the result as it is. Hence, for a link whose \<open>click_count\<close> is not
  its number of click rows, \<open>totalClicks\<close> and \<open>click_count\<close> differ.
\<close>

theorem link_analytics_total:
  "(\<forall>a s'. getLinkAnalytics linkId s = (Inr a, s') \<longrightarrow>
      link_totalClicks a = length (link_clicks a) \<and>
      link_clicks a = newest_first clicked_at (filter (\<lambda>c. link_id c = linkId) (clicks s)) \<and>
      link_totalClicks a = length (filter (\<lambda>c. link_id c = linkId) (clicks s)))
   \<and> (faults s = [] \<longrightarrow> (\<exists>a. getLinkAnalytics linkId s = (Inr a, s)))
   \<and> (\<forall>ls. fst (getLinkAnalytics linkId (s\<lparr>links := ls\<rparr>)) = fst (getLinkAnalytics linkId s))
   \<and> (\<forall>l a s'. l_id l = linkId \<and> getLinkAnalytics linkId s = (Inr a, s') \<and>
         click_count l \<noteq> int (length (filter (\<lambda>c. link_id c = linkId) (clicks s))) \<longrightarrow>
         int (link_totalClicks a) \<noteq> click_count l)"
proof (intro conjI allI impI)
  fix a s'
  assume "getLinkAnalytics linkId s = (Inr a, s')"
  from getLinkAnalytics_returns [OF this]
  show "link_totalClicks a = length (link_clicks a)"
    and "link_clicks a = newest_first clicked_at (filter (\<lambda>c. link_id c = linkId) (clicks s))"
    and "link_totalClicks a = length (filter (\<lambda>c. link_id c = linkId) (clicks s))"
    by (simp_all add: length_newest_first)
next
  assume "faults s = []"
  then show "\<exists>a. getLinkAnalytics linkId s = (Inr a, s)"
    by (rule getLinkAnalytics_no_fault)
next
  fix ls
  show "fst (getLinkAnalytics linkId (s\<lparr>links := ls\<rparr>)) = fst (getLinkAnalytics linkId s)"
    by (rule getLinkAnalytics_links)
next
  fix l a s'
  assume "l_id l = linkId \<and> getLinkAnalytics linkId s = (Inr a, s') \<and>
         click_count l \<noteq> int (length (filter (\<lambda>c. link_id c = linkId) (clicks s)))"
  then show "int (link_totalClicks a) \<noteq> click_count l"
    using getLinkAnalytics_returns [of linkId s a s'] by auto
qed

lemma docs_summary:
  "getLinkAnalytics (l_id docs) two_links =
     (Inr \<lparr>link_totalClicks = 0, link_clicks = [], countryStats = [], cityStats = [],
           dailyStats = []\<rparr>, two_links)"
  by (simp add: getLinkAnalytics_def getClicksByLinkId_def andThen_def select_def stmt_def
        two_links_def newest_first_def group_count_def group_rows_def most_first_def
        blog_def docs_def blog_click_def)

theorem link_analytics_total_witness:
  "getLinkAnalytics (l_id docs) two_links =
     (Inr \<lparr>link_totalClicks = 0, link_clicks = [], countryStats = [], cityStats = [],
           dailyStats = []\<rparr>, two_links)
   \<and> docs \<in> set (links two_links) \<and> click_count docs = 5
   \<and> length (filter (\<lambda>c. link_id c = l_id docs) (clicks two_links)) = 0"
proof -
  let ?A = "\<lparr>link_totalClicks = 0, link_clicks = [], countryStats = [], cityStats = [],
           dailyStats = []\<rparr>"
  from link_analytics_total [of "l_id docs" two_links] docs_summary
  have "link_totalClicks ?A = length (filter (\<lambda>c. link_id c = l_id docs) (clicks two_links))"
    by blast
  then have "length (filter (\<lambda>c. link_id c = l_id docs) (clicks two_links)) = 0"
    by simp
  moreover have "docs \<in> set (links two_links)" "click_count docs = 5"
    by (simp_all add: two_links_def docs_def)
  ultimately show ?thesis
    using docs_summary by simp
qed

end
